theory Spec2Isabelle
  imports Complex_Main "HOL-Library.Word" "HOL-Library.Multiset"
begin

section \<open>The generation engine of embee (src/engine.cpp)\<close>

text \<open>
  The engine computes on C++ \<open>float\<close>. The embedding keeps the scalar type
  abstract: a type \<open>'f\<close> that only has the operations the code uses
  (\<open>0\<close>, \<open>1\<close>, \<open>+\<close>, \<open>-\<close>, \<open>*\<close>, \<open>/\<close>, \<open><\<close>, \<open>\<le>\<close>), with no law assumed
  about the arithmetic. Every theorem stated for \<open>'f\<close> therefore holds for whatever
  these operations do, rounding included. The theorems that speak of a greatest
  element or of a descending order ask that \<open><\<close> and \<open>\<le>\<close> form a linear order, as
  they do on the floats other than NaN. Concrete runs are evaluated at \<open>real\<close>, on
  inputs where no comparison is near a rounding boundary.

  What the code takes from the C++ standard library or from the machine is a
  parameter of the model, collected in one record: \<open>std::exp\<close>, the literal
  \<open>1e-6f\<close>, \<open>std::sort\<close>, the \<open>std::mt19937\<close> constructor, one draw of a
  \<open>std::uniform_real_distribution<float>(a, b)\<close>, the successive draws of a fresh
  \<open>std::normal_distribution<float>(0, 1)\<close> on a generator, the values that
  \<open>std::random_device\<close> returns, numbered in the order the process reads them,
  and what decides whether a \<open>std::vector::resize\<close> of the cache throws: the
  \<open>max_size()\<close> of a vector of scalars and of a vector of such vectors, and
  whether the allocator is out of memory at a request. \<open>out_of_memory k j n\<close> is its
  answer at the \<open>j\<close>-th resize, to \<open>n\<close> elements, of the call that starts when \<open>k\<close>
  values have been read from the device.
\<close>

subsection \<open>Types (types.h, engine.h, model.h, tokenizer.h)\<close>

type_synonym TokenId = "32 word"
type_synonym TokenVector = "TokenId list"

record ('f, 'g) platform =
  exp_f :: "'f \<Rightarrow> 'f"
  lit_1e_6 :: "'f"
  std_sort :: "(nat \<Rightarrow> nat \<Rightarrow> bool) \<Rightarrow> nat list \<Rightarrow> nat list"
  mt19937 :: "32 word \<Rightarrow> 'g"
  uniform_real :: "'f \<Rightarrow> 'f \<Rightarrow> 'g \<Rightarrow> 'f \<times> 'g"
  normal_draws :: "'g \<Rightarrow> nat \<Rightarrow> 'f"
  random_device :: "nat \<Rightarrow> 32 word"
  scalars_max_size :: nat
  buffers_max_size :: nat
  out_of_memory :: "nat \<Rightarrow> nat \<Rightarrow> nat \<Rightarrow> bool"

record 'f GenerationConfig =
  max_length :: nat
  temperature :: 'f
  top_p :: 'f
  repetition_penalty :: 'f
  batch_size :: nat
  use_cache :: bool

record ModelConfig =
  n_vocab :: nat
  n_embd :: nat
  n_layers :: nat
  n_heads :: nat
  n_kv_heads :: nat
  max_seq_len :: nat
  is_rope :: bool

record Tokenizer =
  encode :: "string \<Rightarrow> TokenVector"
  decode :: "TokenVector \<Rightarrow> string"
  vocab_size :: nat
  bos_token :: "TokenId option"
  eos_token :: "TokenId option"
  pad_token :: "TokenId option"

record Model =
  config :: ModelConfig
  tokenizer :: Tokenizer

subsection \<open>Sampling (Engine::Impl::sample_token and apply_repetition_penalty)\<close>

text \<open>
  \<open>std::max_element\<close> keeps the first position and moves to a later one only when
  the kept value is strictly less: it returns the first position of a greatest
  element. \<open>max_element_loop best bi i xs\<close> is the scan with kept value \<open>best\<close> at
  position \<open>bi\<close>, the rest \<open>xs\<close> starting at position \<open>i\<close>. On an empty range the
  C++ function returns \<open>end()\<close>, which \<open>sample_token\<close> dereferences: \<open>None\<close>.
\<close>

primrec max_element_loop :: "'f::ord \<Rightarrow> nat \<Rightarrow> nat \<Rightarrow> 'f list \<Rightarrow> nat" where
  "max_element_loop best bi i [] = bi"
| "max_element_loop best bi i (x # xs) =
     (if best < x then max_element_loop x i (Suc i) xs
      else max_element_loop best bi (Suc i) xs)"

definition max_element :: "'f::ord list \<Rightarrow> nat option" where
  "max_element xs = (case xs of [] \<Rightarrow> None | x # rest \<Rightarrow> Some (max_element_loop x 0 1 rest))"

text \<open>Lines 212-225: the softmax, with the sum accumulated from \<open>0.0f\<close> in index order.\<close>

definition softmax :: "('f::{zero,plus,minus,inverse,ord}, 'g) platform \<Rightarrow> 'f list \<Rightarrow> 'f list option" where
  "softmax P logits =
     (case max_element logits of
        None \<Rightarrow> None
      | Some m \<Rightarrow>
          let max_logit = logits ! m;
              exps = map (\<lambda>l. exp_f P (l - max_logit)) logits;
              sum_exp = foldl (+) 0 exps
          in Some (map (\<lambda>p. p / sum_exp) exps))"

text \<open>Lines 234-239: the indices \<open>0 .. n-1\<close>, sorted with the comparator \<open>probs[a] > probs[b]\<close>.\<close>

definition sorted_indices :: "('f::ord, 'g) platform \<Rightarrow> 'f list \<Rightarrow> nat list" where
  "sorted_indices P probs = std_sort P (\<lambda>a b. probs ! b < probs ! a) [0..<length probs]"

text \<open>
  Lines 242-251: \<open>cutoff_loop tp cumsum i dflt ps\<close> walks the probabilities \<open>ps\<close> in
  sorted order from position \<open>i\<close> with the running sum \<open>cumsum\<close>, and breaks at the
  first position where the sum is \<open>\<ge> top_p\<close>; \<open>dflt\<close> is the initial value
  \<open>indices.size() - 1\<close> of \<open>cutoff_idx\<close>.
\<close>

primrec cutoff_loop :: "'f::{plus,ord} \<Rightarrow> 'f \<Rightarrow> nat \<Rightarrow> nat \<Rightarrow> 'f list \<Rightarrow> nat" where
  "cutoff_loop tp cumsum i dflt [] = dflt"
| "cutoff_loop tp cumsum i dflt (p # ps) =
     (if tp \<le> cumsum + p then i else cutoff_loop tp (cumsum + p) (Suc i) dflt ps)"

definition cutoff_idx :: "'f::{zero,plus,ord} list \<Rightarrow> nat list \<Rightarrow> 'f \<Rightarrow> nat" where
  "cutoff_idx probs indices tp =
     cutoff_loop tp 0 0 (length indices - 1) (map (\<lambda>j. probs ! j) indices)"

text \<open>The nucleus: the sorted indices \<open>0 .. cutoff_idx\<close>, both included.\<close>

definition nucleus :: "'f::{zero,plus,ord} list \<Rightarrow> nat list \<Rightarrow> 'f \<Rightarrow> nat list" where
  "nucleus probs indices tp = take (Suc (cutoff_idx probs indices tp)) indices"

text \<open>Lines 254-257.\<close>

definition norm_factor :: "'f::{zero,plus} list \<Rightarrow> nat list \<Rightarrow> 'f" where
  "norm_factor probs nuc = foldl (+) 0 (map (\<lambda>j. probs ! j) nuc)"

text \<open>
  Lines 262-269: the walk along the cumulative sums of the nucleus; \<open>None\<close> when the
  loop ends without returning.
\<close>

primrec draw_loop :: "'f::{plus,ord} list \<Rightarrow> 'f \<Rightarrow> 'f \<Rightarrow> nat list \<Rightarrow> nat option" where
  "draw_loop probs r cdf [] = None"
| "draw_loop probs r cdf (j # js) =
     (if r \<le> cdf + probs ! j then Some j else draw_loop probs r (cdf + probs ! j) js)"

text \<open>
  \<open>sample_token\<close> takes the generator by reference: the model returns the token with
  the generator's new state. The cast \<open>static_cast<TokenId>\<close> of an index is
  \<open>of_nat\<close> into the 32-bit word.
\<close>

definition sample_token ::
  "('f::{zero,plus,minus,inverse,ord}, 'g) platform \<Rightarrow> 'f list \<Rightarrow> 'f \<Rightarrow> 'g \<Rightarrow> (TokenId \<times> 'g) option" where
  "sample_token P logits tp g =
     (case softmax P logits of
        None \<Rightarrow> None
      | Some probs \<Rightarrow>
          if tp < lit_1e_6 P then
            (case max_element probs of
               None \<Rightarrow> None
             | Some m \<Rightarrow> Some (of_nat m, g))
          else
            let indices = sorted_indices P probs;
                nuc = nucleus probs indices tp;
                (r, g') = uniform_real P 0 (norm_factor probs nuc) g
            in (case draw_loop probs r 0 nuc of
                  Some j \<Rightarrow> Some (of_nat j, g')
                | None \<Rightarrow> Some (of_nat (indices ! 0), g')))"

text \<open>
  Lines 194-207. \<open>penalize\<close> is the body of the loop for one element of the history;
  the loop runs over the history in order, on the vector as updated so far.
\<close>

definition penalty_rule :: "'f::{zero,times,inverse,ord} \<Rightarrow> 'f \<Rightarrow> 'f" where
  "penalty_rule penalty x = (if 0 < x then x / penalty else x * penalty)"

definition penalize :: "'f::{zero,times,inverse,ord} \<Rightarrow> 'f list \<Rightarrow> TokenId \<Rightarrow> 'f list" where
  "penalize penalty logits token =
     (if 0 \<le> sint token \<and> nat (sint token) < length logits
      then logits[nat (sint token) := penalty_rule penalty (logits ! nat (sint token))]
      else logits)"

definition apply_repetition_penalty ::
  "'f::{zero,times,inverse,ord} list \<Rightarrow> TokenVector \<Rightarrow> 'f \<Rightarrow> 'f list" where
  "apply_repetition_penalty logits tokens penalty = foldl (penalize penalty) logits tokens"

subsection \<open>Engine state and the forward-pass placeholders\<close>

text \<open>
  The fields of \<open>Engine::Impl\<close>, without the reference to the model, which is
  constant and passed along. Sizes are \<open>size_t\<close>: \<open>nat\<close>, with the products that
  size the cache taken modulo \<open>2^64\<close>.
\<close>

record 'f Impl =
  kv_cache_initialized :: bool
  head_size :: nat
  last_logits :: "'f list"
  key_cache :: "'f list list"
  value_cache :: "'f list list"

definition size_t_mul :: "nat \<Rightarrow> nat \<Rightarrow> nat" where
  "size_t_mul a b = (a * b) mod 2 ^ 64"

text \<open>
  The constructor (lines 21-29). The division \<open>n_embd / n_heads\<close> is an integer
  division, undefined for \<open>n_heads = 0\<close>: \<open>None\<close>.
\<close>

definition Impl_new :: "Model \<Rightarrow> 'f Impl option" where
  "Impl_new M =
     (if n_heads (config M) = 0 then None
      else Some \<lparr>kv_cache_initialized = False,
                 head_size = n_embd (config M) div n_heads (config M),
                 last_logits = [], key_cache = [], value_cache = []\<rparr>)"

text \<open>
  \<open>std::vector::resize\<close> keeps the first \<open>n\<close> elements and pads with the default
  value. A resize that does not grow the vector cannot throw. One that grows it
  throws \<open>std::length_error\<close> when \<open>n\<close> exceeds \<open>max_size()\<close>, and
  \<open>std::bad_alloc\<close> when the allocator cannot provide the memory; the vector is
  then unchanged. The model does not track capacities: it lets every growing resize
  ask the allocator. These are the only exceptions of the model; every other
  allocation of the engine (the token vector, the scores, the strings), whose size
  the vocabulary and the tokens generated bound, is taken to succeed.
\<close>

datatype error = LengthError | BadAlloc

definition resize :: "nat \<Rightarrow> 'a \<Rightarrow> 'a list \<Rightarrow> 'a list" where
  "resize n d xs = take n xs @ replicate (n - length xs) d"

definition vector_resize :: "nat \<Rightarrow> bool \<Rightarrow> nat \<Rightarrow> 'a \<Rightarrow> 'a list \<Rightarrow> error + 'a list" where
  "vector_resize max_size no_memory n d xs =
     (if n \<le> length xs then Inr (resize n d xs)
      else if max_size < n then Inl LengthError
      else if no_memory then Inl BadAlloc
      else Inr (resize n d xs))"

text \<open>
  Lines 132-148. The argument \<open>len\<close> is the number of positions to allocate, \<open>k\<close>
  the number of device values read when the call of \<open>generate_with_callback\<close>
  started. The resizes are made in the order of the code: the two outer vectors,
  then for each layer its key buffer and its value buffer. An exception leaves the
  function at once, with the engine as the resizes made so far have left it:
  \<open>Inl\<close> of the exception and that engine.
\<close>

definition resize_layer ::
  "('f::zero, 'g) platform \<Rightarrow> nat \<Rightarrow> nat \<Rightarrow> 'f Impl \<Rightarrow> nat \<Rightarrow> error \<times> 'f Impl + 'f Impl" where
  "resize_layer P k n I i =
     (case vector_resize (scalars_max_size P) (out_of_memory P k (2 + 2 * i) n) n 0
             (key_cache I ! i) of
        Inl e \<Rightarrow> Inl (e, I)
      | Inr ks \<Rightarrow>
          let I1 = I\<lparr>key_cache := (key_cache I)[i := ks]\<rparr>
          in (case vector_resize (scalars_max_size P) (out_of_memory P k (3 + 2 * i) n) n 0
                     (value_cache I1 ! i) of
                Inl e \<Rightarrow> Inl (e, I1)
              | Inr vs \<Rightarrow> Inr (I1\<lparr>value_cache := (value_cache I1)[i := vs]\<rparr>)))"

primrec resize_layers ::
  "('f::zero, 'g) platform \<Rightarrow> nat \<Rightarrow> nat \<Rightarrow> nat list \<Rightarrow> 'f Impl \<Rightarrow> error \<times> 'f Impl + 'f Impl" where
  "resize_layers P k n [] I = Inr I"
| "resize_layers P k n (i # layers) I =
     (case resize_layer P k n I i of
        Inl x \<Rightarrow> Inl x
      | Inr I' \<Rightarrow> resize_layers P k n layers I')"

definition initialize_kv_cache ::
  "('f::zero, 'g) platform \<Rightarrow> Model \<Rightarrow> nat \<Rightarrow> nat \<Rightarrow> 'f Impl \<Rightarrow> error \<times> 'f Impl + 'f Impl" where
  "initialize_kv_cache P M k len I =
     (case vector_resize (buffers_max_size P) (out_of_memory P k 0 (n_layers (config M)))
             (n_layers (config M)) [] (key_cache I) of
        Inl e \<Rightarrow> Inl (e, I)
      | Inr kc \<Rightarrow>
          let I1 = I\<lparr>key_cache := kc\<rparr>
          in (case vector_resize (buffers_max_size P) (out_of_memory P k 1 (n_layers (config M)))
                     (n_layers (config M)) [] (value_cache I1) of
                Inl e \<Rightarrow> Inl (e, I1)
              | Inr vc \<Rightarrow>
                  let I2 = I1\<lparr>value_cache := vc\<rparr>;
                      kv_dim = size_t_mul (n_kv_heads (config M)) (head_size I2);
                      n = size_t_mul len kv_dim
                  in (case resize_layers P k n [0..<n_layers (config M)] I2 of
                        Inl x \<Rightarrow> Inl x
                      | Inr I3 \<Rightarrow> Inr (I3\<lparr>kv_cache_initialized := True\<rparr>))))"

text \<open>
  The calls a run makes to the forward pass and to the callback, in order: the
  priming pass with the prompt's tokens, a single-token pass with its token and
  position, a call of the callback with its token and fragment. The code keeps no
  such record; the model does, so that which calls a run makes can be stated.
\<close>

datatype call =
    Prime TokenVector
  | Step TokenId nat
  | Emit TokenId string

definition fragments :: "call list \<Rightarrow> string list" where
  "fragments tr = concat (map (\<lambda>c. case c of Emit t x \<Rightarrow> [x] | _ \<Rightarrow> []) tr)"

text \<open>
  The state of one call of \<open>generate_with_callback\<close>: the engine, the number of
  values read from \<open>std::random_device\<close> so far, the local variables \<open>tokens\<close>,
  \<open>gen\<close> and \<open>generated_count\<close>, the state captured by the callback, and the
  record of calls.
\<close>

record ('f, 'g, 's) run =
  impl :: "'f Impl"
  rd_reads :: nat
  tokens :: TokenVector
  gen :: 'g
  generated_count :: nat
  cb_state :: 's
  trace :: "call list"

text \<open>
  Lines 151-167 and 170-186: both placeholders resize \<open>last_logits_\<close> to \<open>n_vocab\<close>
  and overwrite every entry with a draw of a normal distribution, on a generator
  seeded from a fresh \<open>std::random_device\<close>. Neither touches the cache.
\<close>

definition random_logits :: "('f, 'g) platform \<Rightarrow> Model \<Rightarrow> nat \<Rightarrow> 'f list" where
  "random_logits P M k =
     map (normal_draws P (mt19937 P (random_device P k))) [0..<n_vocab (config M)]"

definition process_tokens ::
  "('f, 'g) platform \<Rightarrow> Model \<Rightarrow> TokenVector \<Rightarrow> ('f, 'g, 's) run \<Rightarrow> ('f, 'g, 's) run" where
  "process_tokens P M toks s =
     s\<lparr>impl := (impl s)\<lparr>last_logits := random_logits P M (rd_reads s)\<rparr>,
       rd_reads := Suc (rd_reads s),
       trace := trace s @ [Prime toks]\<rparr>"

definition process_single_token ::
  "('f, 'g) platform \<Rightarrow> Model \<Rightarrow> TokenId \<Rightarrow> nat \<Rightarrow> ('f, 'g, 's) run \<Rightarrow> ('f, 'g, 's) run" where
  "process_single_token P M token position s =
     s\<lparr>impl := (impl s)\<lparr>last_logits := random_logits P M (rd_reads s)\<rparr>,
       rd_reads := Suc (rd_reads s),
       trace := trace s @ [Step token position]\<rparr>"

definition get_next_token_logits :: "'f Impl \<Rightarrow> 'f list" where
  "get_next_token_logits I = last_logits I"

subsection \<open>The decode loop (Engine::Impl::generate_with_callback)\<close>

text \<open>Lines 68-78: the adjustments made to the copy of the logits before sampling.\<close>

definition scale_temperature :: "'f::{zero,inverse,ord} GenerationConfig \<Rightarrow> 'f list \<Rightarrow> 'f list" where
  "scale_temperature cfg logits =
     (if 0 < temperature cfg then map (\<lambda>l. l / temperature cfg) logits else logits)"

definition adjust_logits ::
  "'f::{zero,one,times,inverse,ord} GenerationConfig \<Rightarrow> 'f list \<Rightarrow> TokenVector \<Rightarrow> 'f list" where
  "adjust_logits cfg logits toks =
     (let scaled = scale_temperature cfg logits
      in if repetition_penalty cfg \<noteq> 1
         then apply_repetition_penalty scaled toks (repetition_penalty cfg)
         else scaled)"

text \<open>
  The three ways out of the loop. The code returns nothing to tell them apart
  (\<open>generate_with_callback\<close> is \<open>void\<close>); the model names the exit taken.
\<close>

datatype terminal = Stopped | Exhausted | Cancelled

datatype ('f, 'g, 's) step_result =
    Stop terminal "('f, 'g, 's) run"
  | Next "('f, 'g, 's) run"

text \<open>
  One iteration of the \<open>while\<close> loop (lines 65-103). The callback is a function of
  the state it captures: it returns whether to continue, and the new state.
\<close>

definition decode_step ::
  "('f::{zero,one,plus,minus,times,inverse,ord}, 'g) platform \<Rightarrow> Model \<Rightarrow>
   ('s \<Rightarrow> TokenId \<Rightarrow> string \<Rightarrow> bool \<times> 's) \<Rightarrow> 'f GenerationConfig \<Rightarrow>
   ('f, 'g, 's) run \<Rightarrow> ('f, 'g, 's) step_result option" where
  "decode_step P M callback cfg s =
     (let logits = adjust_logits cfg (get_next_token_logits (impl s)) (tokens s)
      in case sample_token P logits (top_p cfg) (gen s) of
           None \<Rightarrow> None
         | Some (next_token, g') \<Rightarrow>
             if eos_token (tokenizer M) = Some next_token
             then Some (Stop Stopped (s\<lparr>gen := g'\<rparr>))
             else
               let toks = tokens s @ [next_token];
                   s1 = process_single_token P M next_token (length toks - 1)
                          (s\<lparr>gen := g', tokens := toks\<rparr>);
                   token_text = decode (tokenizer M) [next_token];
                   (continue, c') = callback (cb_state s1) next_token token_text;
                   s2 = s1\<lparr>cb_state := c', trace := trace s1 @ [Emit next_token token_text]\<rparr>
               in if \<not> continue then Some (Stop Cancelled s2)
                  else Some (Next (s2\<lparr>generated_count := Suc (generated_count s2)\<rparr>)))"

function decode_loop ::
  "('f::{zero,one,plus,minus,times,inverse,ord}, 'g) platform \<Rightarrow> Model \<Rightarrow>
   ('s \<Rightarrow> TokenId \<Rightarrow> string \<Rightarrow> bool \<times> 's) \<Rightarrow> 'f GenerationConfig \<Rightarrow>
   ('f, 'g, 's) run \<Rightarrow> (terminal \<times> ('f, 'g, 's) run) option" where
  "decode_loop P M callback cfg s =
     (if generated_count s < max_length cfg then
        (case decode_step P M callback cfg s of
           None \<Rightarrow> None
         | Some (Stop why s') \<Rightarrow> Some (why, s')
         | Some (Next s') \<Rightarrow> decode_loop P M callback cfg s')
      else Some (Exhausted, s))"
  by pat_completeness auto
termination
  by (relation "measure (\<lambda>(P, M, callback, cfg, s). max_length cfg - generated_count s)")
     (auto simp: decode_step_def process_single_token_def Let_def
           split: option.splits if_splits prod.splits)

declare decode_loop.simps [simp del]

text \<open>
  What a call does: it is undefined, it leaves by an exception with the engine in
  some state, or it returns.
\<close>

datatype ('f, 'r) outcome =
    Undefined
  | Throws error "'f Impl"
  | Returns 'r

text \<open>Lines 48-51: the cache is sized on the engine's first call and whenever \<open>use_cache\<close> is off.\<close>

definition prepare_kv_cache ::
  "('f::zero, 'g) platform \<Rightarrow> Model \<Rightarrow> nat \<Rightarrow> 'f GenerationConfig \<Rightarrow> 'f Impl \<Rightarrow>
   error \<times> 'f Impl + 'f Impl" where
  "prepare_kv_cache P M k cfg I =
     (if \<not> kv_cache_initialized I \<or> \<not> use_cache cfg
      then initialize_kv_cache P M k (max_length cfg) I else Inr I)"

text \<open>
  Lines 43-105. \<open>I\<close> is the engine before the call, \<open>k\<close> the number of values read
  from \<open>std::random_device\<close> before the call, \<open>c0\<close> the state the callback starts
  with. The call returns the exit taken with the final state, unless the sizing of
  the cache throws or a step is undefined.
\<close>

definition generate_with_callback ::
  "('f::{zero,one,plus,minus,times,inverse,ord}, 'g) platform \<Rightarrow> Model \<Rightarrow> 'f Impl \<Rightarrow> nat \<Rightarrow>
   string \<Rightarrow> ('s \<Rightarrow> TokenId \<Rightarrow> string \<Rightarrow> bool \<times> 's) \<Rightarrow> 's \<Rightarrow> 'f GenerationConfig \<Rightarrow>
   ('f, terminal \<times> ('f, 'g, 's) run) outcome" where
  "generate_with_callback P M I k prompt callback c0 cfg =
     (let toks = encode (tokenizer M) prompt
      in case prepare_kv_cache P M k cfg I of
           Inl (e, I') \<Rightarrow> Throws e I'
         | Inr I1 \<Rightarrow>
             let g = mt19937 P (random_device P k);
                 s0 = \<lparr>impl = I1, rd_reads = Suc k, tokens = toks, gen = g,
                       generated_count = 0, cb_state = c0, trace = []\<rparr>
             in (case decode_loop P M callback cfg (process_tokens P M toks s0) of
                   None \<Rightarrow> Undefined
                 | Some r \<Rightarrow> Returns r))"

text \<open>
  Lines 31-41: the callback of \<open>generate\<close> captures \<open>result\<close>, which starts as the
  prompt, appends every fragment to it and always continues. \<open>generate\<close> returns
  \<open>result\<close>; the model returns it with the engine and the number of device reads
  after the call. An exception of the streaming call passes through.
\<close>

definition generate ::
  "('f::{zero,one,plus,minus,times,inverse,ord}, 'g) platform \<Rightarrow> Model \<Rightarrow> 'f Impl \<Rightarrow> nat \<Rightarrow>
   string \<Rightarrow> 'f GenerationConfig \<Rightarrow> ('f, string \<times> 'f Impl \<times> nat) outcome" where
  "generate P M I k prompt cfg =
     (case generate_with_callback P M I k prompt
             (\<lambda>result token_id text. (True, result @ text)) prompt cfg of
        Undefined \<Rightarrow> Undefined
      | Throws e I' \<Rightarrow> Throws e I'
      | Returns (why, s) \<Rightarrow> Returns (cb_state s, impl s, rd_reads s))"

subsection \<open>A platform over the reals, and the tokenizer of model.cpp\<close>

text \<open>
  For concrete runs: the scalars are reals, \<open>std::sort\<close> is a stable insertion sort,
  a generator is its seed with the number of draws made from it, and the library's
  variates are given by two tables: \<open>unif seed k\<close> is the \<open>k\<close>-th variate in
  \<open>[0, 1)\<close> of a generator seeded with \<open>seed\<close>, which a uniform distribution on
  \<open>[a, b)\<close> maps to \<open>a + (b - a) * u\<close>, and \<open>nrm seed k\<close> is its \<open>k\<close>-th normal
  variate. \<open>dev\<close> gives the values of \<open>std::random_device\<close>. The literal \<open>1e-6f\<close>
  is the binary32 value nearest to \<open>10^-6\<close>, which is \<open>8796093 / 2^43\<close>. The two
  \<open>max_size()\<close> are those of libstdc++ on a 64-bit machine, \<open>PTRDIFF_MAX\<close> divided
  by the size of an element (4 bytes for a \<open>float\<close>, 24 for a vector), and the
  allocator never runs out of memory.
\<close>

primrec insert_by :: "(nat \<Rightarrow> nat \<Rightarrow> bool) \<Rightarrow> nat \<Rightarrow> nat list \<Rightarrow> nat list" where
  "insert_by cmp x [] = [x]"
| "insert_by cmp x (y # ys) = (if cmp y x then y # insert_by cmp x ys else x # y # ys)"

definition insertion_sort :: "(nat \<Rightarrow> nat \<Rightarrow> bool) \<Rightarrow> nat list \<Rightarrow> nat list" where
  "insertion_sort cmp xs = foldr (insert_by cmp) xs []"

definition real_platform ::
  "(32 word \<Rightarrow> nat \<Rightarrow> real) \<Rightarrow> (32 word \<Rightarrow> nat \<Rightarrow> real) \<Rightarrow> (nat \<Rightarrow> 32 word) \<Rightarrow>
   (real, 32 word \<times> nat) platform" where
  "real_platform unif nrm dev =
     \<lparr>exp_f = exp,
      lit_1e_6 = 8796093 / 8796093022208,
      std_sort = insertion_sort,
      mt19937 = (\<lambda>seed. (seed, 0)),
      uniform_real = (\<lambda>a b (seed, k). (a + (b - a) * unif seed k, (seed, Suc k))),
      normal_draws = (\<lambda>(seed, k) i. nrm seed (k + i)),
      random_device = dev,
      scalars_max_size = 2305843009213693951,
      buffers_max_size = 384307168202282325,
      out_of_memory = (\<lambda>k j n. False)\<rparr>"

text \<open>
  \<open>DummyTokenizer\<close> (model.cpp, lines 101-135): one token per character. \<open>char\<close> is
  taken as signed, as on x86; converting a token to \<open>char\<close> keeps its low byte.
\<close>

definition DummyTokenizer :: Tokenizer where
  "DummyTokenizer =
     \<lparr>encode = map (\<lambda>c. scast (of_nat (of_char c) :: 8 word)),
      decode = map (\<lambda>t. char_of (unat t)),
      vocab_size = 256,
      bos_token = Some 1,
      eos_token = Some 2,
      pad_token = Some 0\<rparr>"

text \<open>
  The value of the running sum (\<open>cumsum\<close> in the loop of lines 245-251, \<open>cdf\<close> in the
  loop of lines 264-269) after the iteration at sorted position \<open>k\<close>: the
  probabilities at the sorted positions \<open>0 .. k\<close>, added from \<open>0.0f\<close> in that order.
\<close>

definition cumulative :: "'f::{zero,plus} list \<Rightarrow> nat list \<Rightarrow> nat \<Rightarrow> 'f" where
  "cumulative probs indices k = foldl (+) 0 (map (\<lambda>j. probs ! j) (take (Suc k) indices))"

subsection \<open>The repetition penalty as the specification words it\<close>

text \<open>
  Following the specification's words, not the code: "for every token identifier
  present in history, apply the penalty to that identifier's slot", read as one
  application of the rule to the slot of each identifier that occurs in the history,
  identifiers outside the vector being ignored.
\<close>

definition penalty_once_per_identifier ::
  "'f::{zero,times,inverse,ord} list \<Rightarrow> TokenVector \<Rightarrow> 'f \<Rightarrow> 'f list" where
  "penalty_once_per_identifier logits history penalty =
     map (\<lambda>i. if \<exists>t \<in> set history. 0 \<le> sint t \<and> nat (sint t) = i
              then penalty_rule penalty (logits ! i) else logits ! i)
         [0..<length logits]"

text \<open>
  What the model asks of \<open>std::sort\<close>: the result is a rearrangement of the range.
  Its order on equal elements is left open.
\<close>

definition sort_permutes :: "('f, 'g) platform \<Rightarrow> bool" where
  "sort_permutes P = (\<forall>cmp xs. mset (std_sort P cmp xs) = mset xs)"



subsection \<open>Inputs for concrete runs\<close>

text \<open>The default \<open>GenerationConfig\<close> of engine.h, over the reals.\<close>

definition default_config :: "real GenerationConfig" where
  "default_config =
     \<lparr>max_length = 512, temperature = 8 / 10, top_p = 9 / 10,
      repetition_penalty = 11 / 10, batch_size = 1, use_cache = True\<rparr>"

text \<open>
  A model with a vocabulary of two tokens and room for two positions, with the
  tokenizer of model.cpp, and the engine that the constructor builds for it.
\<close>

definition tiny_model :: Model where
  "tiny_model =
     \<lparr>config = \<lparr>n_vocab = 2, n_embd = 2, n_layers = 1, n_heads = 1, n_kv_heads = 1,
                 max_seq_len = 2, is_rope = True\<rparr>,
      tokenizer = DummyTokenizer\<rparr>"

definition tiny_engine :: "real Impl" where
  "tiny_engine =
     \<lparr>kv_cache_initialized = False, head_size = 2, last_logits = [],
      key_cache = [], value_cache = []\<rparr>"

text \<open>That engine once its cache has been sized for \<open>len\<close> positions: two scalars for each.\<close>

definition tiny_engine_cached :: "nat \<Rightarrow> real Impl" where
  "tiny_engine_cached len =
     \<lparr>kv_cache_initialized = True, head_size = 2, last_logits = [],
      key_cache = [replicate (2 * len) 0], value_cache = [replicate (2 * len) 0]\<rparr>"

text \<open>
  The library's variates for the concrete runs. A generator seeded with 2 yields the
  normal variates \<open>-1, 0, 0, ...\<close>, a generator seeded with anything else
  \<open>0, -1, -1, ...\<close>; every uniform variate in \<open>[0, 1)\<close> is \<open>u\<close>.
\<close>

definition scores_by_seed :: "32 word \<Rightarrow> nat \<Rightarrow> real" where
  "scores_by_seed seed i =
     (if seed = 2 then (if i = 0 then - 1 else 0) else (if i = 0 then 0 else - 1))"

definition test_platform :: "real \<Rightarrow> (nat \<Rightarrow> 32 word) \<Rightarrow> (real, 32 word \<times> nat) platform" where
  "test_platform u dev = real_platform (\<lambda>seed k. u) scores_by_seed dev"

section \<open>Properties\<close>



lemma max_element_loop_greatest:
  fixes best :: "'f::linorder"
  assumes "bi < length pre" and "pre ! bi = best"
    and "\<forall>i < length pre. pre ! i \<le> best" and "\<forall>i < bi. pre ! i < best"
  shows "max_element_loop best bi (length pre) xs < length (pre @ xs)
       \<and> (\<forall>i < length (pre @ xs).
             (pre @ xs) ! i \<le> (pre @ xs) ! max_element_loop best bi (length pre) xs)
       \<and> (\<forall>i < max_element_loop best bi (length pre) xs.
             (pre @ xs) ! i < (pre @ xs) ! max_element_loop best bi (length pre) xs)"
  using assms
proof (induction xs arbitrary: pre best bi)
  case Nil
  then show ?case by simp
next
  case (Cons x xs)
  show ?case
  proof (cases "best < x")
    case True
    have le: "\<forall>i < length (pre @ [x]). (pre @ [x]) ! i \<le> x"
    proof (intro allI impI)
      fix i assume "i < length (pre @ [x])"
      then show "(pre @ [x]) ! i \<le> x"
        using Cons.prems(3) True by (cases "i < length pre") (auto simp: nth_append)
    qed
    have lt: "\<forall>i < length pre. (pre @ [x]) ! i < x"
      using Cons.prems(3) True by (auto simp: nth_append)
    have "length pre < length (pre @ [x])" "(pre @ [x]) ! length pre = x" by simp_all
    from Cons.IH [of "length pre" "pre @ [x]" x, OF this le] lt True
    show ?thesis by simp
  next
    case False
    have le: "\<forall>i < length (pre @ [x]). (pre @ [x]) ! i \<le> best"
    proof (intro allI impI)
      fix i assume "i < length (pre @ [x])"
      then show "(pre @ [x]) ! i \<le> best"
        using Cons.prems(3) False by (cases "i < length pre") (auto simp: nth_append)
    qed
    have lt: "\<forall>i < bi. (pre @ [x]) ! i < best"
      using Cons.prems(1,4) by (auto simp: nth_append)
    have "bi < length (pre @ [x])" "(pre @ [x]) ! bi = best"
      using Cons.prems(1,2) by (simp_all add: nth_append)
    from Cons.IH [of bi "pre @ [x]" best, OF this le lt] False
    show ?thesis by simp
  qed
qed

lemma max_element_greatest:
  fixes xs :: "'f::linorder list"
  assumes "max_element xs = Some m"
  shows "m < length xs \<and> (\<forall>i < length xs. xs ! i \<le> xs ! m) \<and> (\<forall>i < m. xs ! i < xs ! m)"
proof (cases xs)
  case Nil
  with assms show ?thesis by (simp add: max_element_def)
next
  case (Cons x rest)
  with assms have m: "m = max_element_loop x 0 (length [x]) rest"
    by (simp add: max_element_def)
  have "0 < length [x]" "[x] ! 0 = x" "\<forall>i < length [x]. [x] ! i \<le> x" "\<forall>i < (0::nat). [x] ! i < x"
    by simp_all
  from max_element_loop_greatest [OF this, of rest] show ?thesis
    unfolding m Cons by simp
qed


lemma softmax_length: "softmax P logits = Some probs \<Longrightarrow> length probs = length logits"
  by (auto simp: softmax_def Let_def split: option.splits)



lemma sorted_indices_length:
  "sort_permutes P \<Longrightarrow> length (sorted_indices P probs) = length probs"
proof -
  assume "sort_permutes P"
  then have "mset (sorted_indices P probs) = mset [0..<length probs]"
    by (simp add: sort_permutes_def sorted_indices_def)
  then have "length (sorted_indices P probs) = length [0..<length probs]"
    by (rule mset_eq_length)
  then show ?thesis by simp
qed




lemma max_element_Some: "xs \<noteq> [] \<Longrightarrow> \<exists>m. max_element xs = Some m"
  by (cases xs) (simp_all add: max_element_def)


lemma insert_by_mset: "mset (insert_by cmp x xs) = add_mset x (mset xs)"
  by (induction xs) simp_all

lemma insertion_sort_mset: "mset (insertion_sort cmp xs) = mset xs"
  by (induction xs) (simp_all add: insertion_sort_def insert_by_mset)

lemma real_platform_sel:
  "exp_f (real_platform u n d) = exp"
  "lit_1e_6 (real_platform u n d) = 8796093 / 8796093022208"
  "std_sort (real_platform u n d) = insertion_sort"
  "mt19937 (real_platform u n d) = (\<lambda>seed. (seed, 0))"
  "uniform_real (real_platform u n d) a b (seed, k) = (a + (b - a) * u seed k, (seed, Suc k))"
  "normal_draws (real_platform u n d) (seed, k) i = n seed (k + i)"
  "random_device (real_platform u n d) = d"
  "scalars_max_size (real_platform u n d) = 2305843009213693951"
  "buffers_max_size (real_platform u n d) = 384307168202282325"
  "out_of_memory (real_platform u n d) k j m = False"
  by (simp_all add: real_platform_def)

lemma real_platform_sort_permutes: "sort_permutes (real_platform u n d)"
  by (simp add: sort_permutes_def real_platform_sel insertion_sort_mset)





subsection \<open>The sampled token is in the vocabulary\<close>



subsection \<open>The repetition penalty\<close>

lemma penalize_length: "length (penalize p logits t) = length logits"
  by (simp add: penalize_def)

lemma penalize_nth:
  "i < length logits \<Longrightarrow>
   penalize p logits t ! i = (if sint t = int i then penalty_rule p (logits ! i) else logits ! i)"
  by (auto simp: penalize_def nth_list_update)

lemma apply_repetition_penalty_length:
  "length (apply_repetition_penalty logits toks p) = length logits"
  unfolding apply_repetition_penalty_def
  by (induction toks arbitrary: logits) (simp_all add: penalize_length)

lemma apply_repetition_penalty_nth:
  "i < length logits \<Longrightarrow>
   apply_repetition_penalty logits toks p ! i
     = (penalty_rule p ^^ count_list (map sint toks) (int i)) (logits ! i)"
  unfolding apply_repetition_penalty_def
proof (induction toks arbitrary: logits)
  case Nil
  then show ?case by simp
next
  case (Cons t toks)
  have "i < length (penalize p logits t)"
    using Cons.prems by (simp add: penalize_length)
  then have "foldl (penalize p) (penalize p logits t) toks ! i
      = (penalty_rule p ^^ count_list (map sint toks) (int i)) (penalize p logits t ! i)"
    by (rule Cons.IH)
  then show ?case
    using Cons.prems by (simp add: penalize_nth funpow_swap1)
qed

text \<open>
  C4, as the claim words it, fails on a history that holds an identifier twice: the
  loop runs over the occurrences, so the slot of token 0 is divided by the penalty
  twice (\<open>4 / 2 / 2 = 1\<close>), where one application of the rule to the slot of each
  identifier present gives \<open>4 / 2 = 2\<close>.
\<close>

theorem repetition_penalty_twice_counterexample:
  "apply_repetition_penalty [4 :: real] [0, 0] 2 = [1]
   \<and> penalty_once_per_identifier [4 :: real] [0, 0] 2 = [2]"
  by (simp add: apply_repetition_penalty_def penalize_def penalty_rule_def
        penalty_once_per_identifier_def)

text \<open>
  C4, amended. The step leaves the length of the score vector unchanged, and the
  slot of every identifier \<open>i\<close> of the vocabulary ends as the rule (divide a positive
  value by the penalty, multiply any other value by it) applied to it once for each
  occurrence of \<open>i\<close> in the history, in succession. Entries of the history that are
  negative or not below the length of the vector are occurrences of no slot, so they
  change nothing. The step is run exactly when \<open>repetition_penalty \<noteq> 1.0\<close>; when
  it equals \<open>1.0\<close> the scores are the temperature-scaled ones, untouched.
\<close>

theorem repetition_penalty_per_occurrence:
  "length (apply_repetition_penalty logits toks p) = length logits
   \<and> (\<forall>i < length logits.
         apply_repetition_penalty logits toks p ! i
           = (penalty_rule p ^^ count_list (map sint toks) (int i)) (logits ! i))
   \<and> (repetition_penalty cfg \<noteq> 1 \<longrightarrow>
         adjust_logits cfg logits toks
           = apply_repetition_penalty (scale_temperature cfg logits) toks (repetition_penalty cfg))
   \<and> (repetition_penalty cfg = 1 \<longrightarrow>
         adjust_logits cfg logits toks = scale_temperature cfg logits)"
  by (simp add: apply_repetition_penalty_length apply_repetition_penalty_nth
        adjust_logits_def Let_def)

theorem repetition_penalty_per_occurrence_witness:
  "apply_repetition_penalty [4, - 3 :: real] [0, 0, 7, - 1, 1] 2 = [1, - 6]
   \<and> adjust_logits (default_config\<lparr>temperature := 1, repetition_penalty := 2\<rparr>)
         [4, - 3] [0, 0, 7, - 1, 1] = [1, - 6]
   \<and> adjust_logits (default_config\<lparr>temperature := 1, repetition_penalty := 1\<rparr>)
         [4, - 3] [0, 0, 7, - 1, 1] = [4, - 3]"
proof -
  let ?out = "apply_repetition_penalty [4, - 3 :: real] [0, 0, 7, - 1, 1] 2"
  note two = repetition_penalty_per_occurrence
               [of "[4, - 3 :: real]" "[0, 0, 7, - 1, 1]" 2
                   "default_config\<lparr>temperature := 1, repetition_penalty := 2\<rparr>"]
  note one = repetition_penalty_per_occurrence
               [of "[4, - 3 :: real]" "[0, 0, 7, - 1, 1]" 2
                   "default_config\<lparr>temperature := 1, repetition_penalty := 1\<rparr>"]
  have len: "length ?out = 2" using two by simp
  have slots: "?out ! 0 = 1" "?out ! 1 = - 6"
    using two by (simp_all add: penalty_rule_def)
  have out: "?out = [1, - 6]"
    by (rule nth_equalityI) (use len slots in \<open>auto simp: less_Suc_eq numeral_2_eq_2\<close>)
  have "adjust_logits (default_config\<lparr>temperature := 1, repetition_penalty := 2\<rparr>)
          [4, - 3] [0, 0, 7, - 1, 1] = ?out"
    using two by (simp add: default_config_def scale_temperature_def)
  moreover have "adjust_logits (default_config\<lparr>temperature := 1, repetition_penalty := 1\<rparr>)
          [4, - 3] [0, 0, 7, - 1, 1] = [4, - 3]"
    using one by (simp add: default_config_def scale_temperature_def)
  ultimately show ?thesis using out by simp
qed

subsection \<open>Rules for the decode loop\<close>

lemma decode_step_Next:
  "decode_step P M cb cfg s = Some (Next s') \<Longrightarrow>
     generated_count s' = Suc (generated_count s)
   \<and> length (tokens s') = Suc (length (tokens s))
   \<and> rd_reads s' = Suc (rd_reads s)
   \<and> (\<exists>rest. trace s' = trace s @ rest)
   \<and> key_cache (impl s') = key_cache (impl s)
   \<and> value_cache (impl s') = value_cache (impl s)"
  by (auto simp: decode_step_def process_single_token_def Let_def
           split: option.splits if_splits prod.splits)



text \<open>
  Two loops that proceed in lockstep: their states are related by \<open>R\<close> while they
  run, and by \<open>F\<close> when they have ended.
\<close>

lemma decode_loop_simulation:
  assumes rel: "R s1 s2"
    and count: "\<And>s1 s2. R s1 s2 \<Longrightarrow> generated_count s2 = generated_count s1"
    and final: "\<And>s1 s2. R s1 s2 \<Longrightarrow> \<not> generated_count s1 < max_length cfg \<Longrightarrow> F s1 s2"
    and sim: "\<And>s1 s2. R s1 s2 \<Longrightarrow> generated_count s1 < max_length cfg \<Longrightarrow>
        (case decode_step P1 M1 cb1 cfg s1 of
           None \<Rightarrow> decode_step P2 M2 cb2 cfg s2 = None
         | Some (Stop w t) \<Rightarrow> (\<exists>t'. decode_step P2 M2 cb2 cfg s2 = Some (Stop w t') \<and> F t t')
         | Some (Next t) \<Rightarrow> (\<exists>t'. decode_step P2 M2 cb2 cfg s2 = Some (Next t') \<and> R t t'))"
  shows "case decode_loop P1 M1 cb1 cfg s1 of
           None \<Rightarrow> decode_loop P2 M2 cb2 cfg s2 = None
         | Some (w, t) \<Rightarrow> (\<exists>t'. decode_loop P2 M2 cb2 cfg s2 = Some (w, t') \<and> F t t')"
  using assms
proof (induction P1 M1 cb1 cfg s1 arbitrary: s2 rule: decode_loop.induct)
  case (1 P1 M1 cb1 cfg s1)
  have cnt: "generated_count s2 = generated_count s1"
    using "1.prems"(1,2) by blast
  show ?case
  proof (cases "generated_count s1 < max_length cfg")
    case False
    with "1.prems"(1,3) have "F s1 s2" by blast
    with False cnt show ?thesis
      by (simp add: decode_loop.simps [of P1] decode_loop.simps [of P2])
  next
    case True
    note here = "1.prems"(4) [OF "1.prems"(1) True]
    show ?thesis
    proof (cases "decode_step P1 M1 cb1 cfg s1")
      case None
      with here True cnt show ?thesis
        by (simp add: decode_loop.simps [of P1] decode_loop.simps [of P2])
    next
      case (Some res)
      show ?thesis
      proof (cases res)
        case (Stop w t)
        with here Some True cnt show ?thesis
          by (auto simp: decode_loop.simps [of P1] decode_loop.simps [of P2])
      next
        case (Next t)
        with here Some obtain t' where
          t': "decode_step P2 M2 cb2 cfg s2 = Some (Next t')" and r': "R t t'"
          by auto
        have "case decode_loop P1 M1 cb1 cfg t of
                None \<Rightarrow> decode_loop P2 M2 cb2 cfg t' = None
              | Some (w, u) \<Rightarrow> (\<exists>u'. decode_loop P2 M2 cb2 cfg t' = Some (w, u') \<and> F u u')"
          using "1.IH" [OF True Some Next r'] "1.prems"(2,3,4) by blast
        moreover have "decode_loop P1 M1 cb1 cfg s1 = decode_loop P1 M1 cb1 cfg t"
          using True Some Next by (simp add: decode_loop.simps [of P1 M1 cb1 cfg s1])
        moreover have "decode_loop P2 M2 cb2 cfg s2 = decode_loop P2 M2 cb2 cfg t'"
          using True cnt t' by (simp add: decode_loop.simps [of P2 M2 cb2 cfg s2])
        ultimately show ?thesis by (auto split: option.splits)
      qed
    qed
  qed
qed

subsection \<open>Sampling from two scores on the platform over the reals\<close>

lemma exp_m1_ge: "1 / 3 \<le> exp (- 1 :: real)"
proof -
  have "exp (1 :: real) \<le> 3" by (rule exp_le)
  then have "1 / 3 \<le> 1 / exp (1 :: real)"
    by (intro divide_left_mono) simp_all
  then show ?thesis by (simp add: exp_minus inverse_eq_divide)
qed

lemma softmax_hi_lo:
  "softmax (real_platform u n d) [0, - 1]
     = Some [1 / (1 + exp (- 1)), exp (- 1) / (1 + exp (- 1))]"
  by (simp add: softmax_def max_element_def real_platform_sel Let_def)

lemma softmax_lo_hi:
  "softmax (real_platform u n d) [- 1, 0]
     = Some [exp (- 1) / (exp (- 1) + 1), 1 / (exp (- 1) + 1)]"
  by (simp add: softmax_def max_element_def real_platform_sel Let_def)

lemma sorted_indices_two_desc:
  "y < x \<Longrightarrow> sorted_indices (real_platform u n d) [x, y] = [0, Suc 0]"
  by (simp add: sorted_indices_def real_platform_sel insertion_sort_def upt_conv_Cons)

lemma sorted_indices_two_asc:
  "x < y \<Longrightarrow> sorted_indices (real_platform u n d) [x, y] = [Suc 0, 0]"
  by (simp add: sorted_indices_def real_platform_sel insertion_sort_def upt_conv_Cons)

lemma nucleus_two_desc:
  "x < tp \<Longrightarrow> nucleus [x, y :: real] [0, Suc 0] tp = [0, Suc 0]"
  by (simp add: nucleus_def cutoff_idx_def)

lemma nucleus_two_asc:
  "y < tp \<Longrightarrow> nucleus [x, y :: real] [Suc 0, 0] tp = [Suc 0, 0]"
  by (simp add: nucleus_def cutoff_idx_def)

lemma sample_two_desc:
  assumes sm: "softmax (real_platform u n d) logits = Some [x, y]"
    and "y < x" "x < tp" "1 / 1000000 \<le> tp"
  shows "sample_token (real_platform u n d) logits tp (seed, k)
         = Some (if (x + y) * u seed k \<le> x then 0
                 else if (x + y) * u seed k \<le> x + y then 1 else 0, (seed, Suc k))"
  using assms(2-)
  by (simp add: sample_token_def sm real_platform_sel sorted_indices_two_desc
        nucleus_two_desc norm_factor_def Let_def)

lemma sample_two_asc:
  assumes sm: "softmax (real_platform u n d) logits = Some [x, y]"
    and "x < y" "y < tp" "1 / 1000000 \<le> tp"
  shows "sample_token (real_platform u n d) logits tp (seed, k)
         = Some (if (y + x) * u seed k \<le> y then 1
                 else if (y + x) * u seed k \<le> y + x then 0 else 1, (seed, Suc k))"
  using assms(2-)
  by (simp add: sample_token_def sm real_platform_sel sorted_indices_two_asc
        nucleus_two_asc norm_factor_def Let_def)

lemma hi_lo_facts:
  "exp (- 1 :: real) / (1 + exp (- 1)) < 1 / (1 + exp (- 1))"
  "1 / (1 + exp (- 1 :: real)) \<le> 3 / 4"
  "1 / 2 \<le> 1 / (1 + exp (- 1 :: real))"
  "1 / (1 + exp (- 1 :: real)) + exp (- 1) / (1 + exp (- 1)) = 1"
proof -
  have pos: "0 < 1 + exp (- 1 :: real)" by (simp add: add_pos_pos)
  show "exp (- 1 :: real) / (1 + exp (- 1)) < 1 / (1 + exp (- 1))"
    using pos by (simp add: divide_strict_right_mono)
  show "1 / (1 + exp (- 1 :: real)) \<le> 3 / 4"
    using exp_m1_ge pos by (simp add: field_simps)
  show "1 / 2 \<le> 1 / (1 + exp (- 1 :: real))"
    using pos by (simp add: field_simps)
  show "1 / (1 + exp (- 1 :: real)) + exp (- 1) / (1 + exp (- 1)) = 1"
    using pos by (simp add: field_simps)
qed

lemma sample_hi_lo_low:
  assumes "3 / 4 < tp" "0 \<le> u seed k" "u seed k \<le> 1 / 2"
  shows "sample_token (real_platform u n d) [0, - 1] tp (seed, k) = Some (0, (seed, Suc k))"
proof -
  have "(1 / (1 + exp (- 1 :: real)) + exp (- 1) / (1 + exp (- 1))) * u seed k \<le> 1 / (1 + exp (- 1))"
    using assms hi_lo_facts(3) by (simp add: hi_lo_facts(4))
  then show ?thesis
    using assms hi_lo_facts(1,2)
    by (simp add: sample_two_desc [OF softmax_hi_lo])
qed

lemma sample_hi_lo_high:
  assumes "3 / 4 < tp" "3 / 4 < u seed k" "u seed k \<le> 1"
  shows "sample_token (real_platform u n d) [0, - 1] tp (seed, k) = Some (1, (seed, Suc k))"
proof -
  have "\<not> (1 / (1 + exp (- 1 :: real)) + exp (- 1) / (1 + exp (- 1))) * u seed k \<le> 1 / (1 + exp (- 1))"
    "(1 / (1 + exp (- 1 :: real)) + exp (- 1) / (1 + exp (- 1))) * u seed k \<le> 1 / (1 + exp (- 1 :: real)) + exp (- 1) / (1 + exp (- 1))"
    using assms hi_lo_facts(2) by (simp_all add: hi_lo_facts(4))
  then show ?thesis
    using assms hi_lo_facts(1,2)
    by (simp add: sample_two_desc [OF softmax_hi_lo])
qed

subsection \<open>Concrete runs on the two-token model\<close>

lemma tiny_engine_new: "Impl_new tiny_model = Some tiny_engine"
  by (simp add: Impl_new_def tiny_model_def tiny_engine_def)

lemma random_logits_tiny:
  "random_logits (test_platform u dev) (tiny_model\<lparr>tokenizer := T\<rparr>) k
     = [scores_by_seed (dev k) 0, scores_by_seed (dev k) 1]"
  by (simp add: random_logits_def test_platform_def real_platform_sel tiny_model_def
        upt_conv_Cons)

lemma sample_test_low:
  assumes "3 / 4 < tp" "0 \<le> u" "u \<le> 1 / 2"
  shows "sample_token (test_platform u dev) [0, - 1] tp (seed, k) = Some (0, (seed, Suc k))"
  unfolding test_platform_def using assms by (intro sample_hi_lo_low) simp_all

lemma sample_test_high:
  assumes "3 / 4 < tp" "3 / 4 < u" "u \<le> 1"
  shows "sample_token (test_platform u dev) [0, - 1] tp (seed, k) = Some (1, (seed, Suc k))"
  unfolding test_platform_def using assms by (intro sample_hi_lo_high) simp_all

lemma test_platform_sort_permutes: "sort_permutes (test_platform u dev)"
  unfolding test_platform_def by (rule real_platform_sort_permutes)


lemma test_platform_sel:
  "mt19937 (test_platform u dev) seed = (seed, 0)"
  "random_device (test_platform u dev) = dev"
  by (simp_all add: test_platform_def real_platform_sel)

lemma generate_with_callback_unfold:
  "generate_with_callback P M I k prompt cb c0 cfg
     = (case prepare_kv_cache P M k cfg I of
          Inl (e, I') \<Rightarrow> Throws e I'
        | Inr I1 \<Rightarrow>
            (case decode_loop P M cb cfg
                    \<lparr>impl = I1\<lparr>last_logits := random_logits P M (Suc k)\<rparr>,
                     rd_reads = Suc (Suc k), tokens = encode (tokenizer M) prompt,
                     gen = mt19937 P (random_device P k), generated_count = 0, cb_state = c0,
                     trace = [Prime (encode (tokenizer M) prompt)]\<rparr> of
               None \<Rightarrow> Undefined
             | Some r \<Rightarrow> Returns r))"
  by (simp add: generate_with_callback_def process_tokens_def Let_def split: sum.splits)

lemma generate_with_callback_ready:
  assumes "prepare_kv_cache P M k cfg I = Inr I1"
  shows "generate_with_callback P M I k prompt cb c0 cfg
     = (case decode_loop P M cb cfg
               \<lparr>impl = I1\<lparr>last_logits := random_logits P M (Suc k)\<rparr>,
                rd_reads = Suc (Suc k), tokens = encode (tokenizer M) prompt,
                gen = mt19937 P (random_device P k), generated_count = 0, cb_state = c0,
                trace = [Prime (encode (tokenizer M) prompt)]\<rparr> of
          None \<Rightarrow> Undefined
        | Some r \<Rightarrow> Returns r)"
  by (simp add: generate_with_callback_unfold assms)

lemma generate_with_callback_throws:
  assumes "prepare_kv_cache P M k cfg I = Inl (e, I')"
  shows "generate_with_callback P M I k prompt cb c0 cfg = Throws e I'"
  by (simp add: generate_with_callback_unfold assms)

lemma tiny_initialize:
  assumes "n_layers (config M) = 1" and "n_kv_heads (config M) = 1" and "len < 2 ^ 60"
  shows "initialize_kv_cache (test_platform u dev) M k len tiny_engine = Inr (tiny_engine_cached len)"
proof -
  have dim: "size_t_mul (Suc 0) 2 = 2" "size_t_mul 0 2 = 0"
    by (simp_all add: size_t_mul_def)
  have "2 * len < 2 * 2 ^ 60" using assms(3) by simp
  then have small: "2 * len < (2 :: nat) ^ 64" "2 * len \<le> 2305843009213693951" by simp_all
  then have n: "size_t_mul len 2 = 2 * len"
    by (simp add: size_t_mul_def mult.commute)
  show ?thesis
    using small(2)
    by (simp add: initialize_kv_cache_def resize_layer_def vector_resize_def resize_def
          test_platform_def real_platform_sel assms(1,2) tiny_engine_def tiny_engine_cached_def
          dim n Let_def)
qed

lemma tiny_prepare:
  assumes "n_layers (config M) = 1" and "n_kv_heads (config M) = 1" and "max_length cfg < 2 ^ 60"
  shows "prepare_kv_cache (test_platform u dev) M k cfg tiny_engine
         = Inr (tiny_engine_cached (max_length cfg))"
  using tiny_initialize [OF assms] by (simp add: prepare_kv_cache_def tiny_engine_def)

lemma encode_Hi: "encode DummyTokenizer ''Hi'' = [72, 105]"
  by (simp add: DummyTokenizer_def)

subsection \<open>End of sequence\<close>

text \<open>
  C9. In a decode step (the loop condition holds) in which the tokenizer defines an
  end-of-sequence token and \<open>sample_token\<close>, run on the adjusted scores, returns
  that token, the loop ends at once through its first \<open>break\<close>, the exit named
  \<open>Stopped\<close>. The state it ends in is the state the step began in, but for the
  generator that \<open>sample_token\<close> advanced: the token sequence is unchanged (the
  token is not appended), the record of calls is unchanged (no forward pass, no
  fragment emitted to the callback), and the callback's state is unchanged.
\<close>

theorem eos_stops_immediately:
  assumes "generated_count s < max_length cfg"
    and "sample_token P (adjust_logits cfg (get_next_token_logits (impl s)) (tokens s))
           (top_p cfg) (gen s) = Some (tok, g')"
    and "eos_token (tokenizer M) = Some tok"
  shows "decode_loop P M callback cfg s = Some (Stopped, s\<lparr>gen := g'\<rparr>)"
  using assms by (simp add: decode_loop.simps [of P M callback cfg s] decode_step_def)

theorem eos_stops_immediately_witness:
  "generate_with_callback (test_platform (1 / 10) (\<lambda>i. 1))
       (tiny_model\<lparr>tokenizer := DummyTokenizer\<lparr>eos_token := Some 0\<rparr>\<rparr>) tiny_engine 0 ''Hi''
       (\<lambda>c t x. (True, c @ x)) [] (default_config\<lparr>temperature := 1\<rparr>)
   = Returns (Stopped,
       \<lparr>impl = (tiny_engine_cached 512)\<lparr>last_logits := [0, - 1]\<rparr>,
        rd_reads = 2, tokens = [72, 105], gen = (1, 1), generated_count = 0,
        cb_state = [], trace = [Prime [72, 105]]\<rparr>)"
proof -
  let ?P = "test_platform (1 / 10) (\<lambda>i. 1)"
  let ?M = "tiny_model\<lparr>tokenizer := DummyTokenizer\<lparr>eos_token := Some 0\<rparr>\<rparr>"
  let ?cfg = "default_config\<lparr>temperature := 1\<rparr>"
  let ?s = "\<lparr>impl = (tiny_engine_cached 512)\<lparr>last_logits := [0, - 1]\<rparr>,
        rd_reads = 2, tokens = [72, 105], gen = (1, 0), generated_count = 0,
        cb_state = [], trace = [Prime [72, 105]]\<rparr> :: (real, 32 word \<times> nat, string) run"
  have count: "generated_count ?s < max_length ?cfg"
    by (simp add: default_config_def)
  have adj: "adjust_logits ?cfg (get_next_token_logits (impl ?s)) (tokens ?s) = [0, - 1]"
    by (simp add: adjust_logits_def scale_temperature_def default_config_def
          get_next_token_logits_def Let_def apply_repetition_penalty_def penalize_def)
  have sample: "sample_token ?P (adjust_logits ?cfg (get_next_token_logits (impl ?s)) (tokens ?s))
           (top_p ?cfg) (gen ?s) = Some (0, (1, 1))"
    unfolding adj by (simp add: sample_test_low default_config_def)
  have eos: "eos_token (tokenizer ?M) = Some 0"
    by simp
  have loop: "decode_loop ?P ?M (\<lambda>c t x. (True, c @ x)) ?cfg ?s = Some (Stopped, ?s\<lparr>gen := (1, 1)\<rparr>)"
    by (rule eos_stops_immediately [OF count sample eos])
  have ready: "prepare_kv_cache ?P ?M 0 ?cfg tiny_engine = Inr (tiny_engine_cached 512)"
    using tiny_prepare [of ?M ?cfg "1 / 10" "\<lambda>i. 1" 0]
    by (simp add: tiny_model_def default_config_def)
  have start: "generate_with_callback ?P ?M tiny_engine 0 ''Hi'' (\<lambda>c t x. (True, c @ x)) [] ?cfg
      = (case decode_loop ?P ?M (\<lambda>c t x. (True, c @ x)) ?cfg ?s of
           None \<Rightarrow> Undefined | Some r \<Rightarrow> Returns r)"
    by (simp add: generate_with_callback_ready [OF ready] random_logits_tiny test_platform_sel
          scores_by_seed_def encode_Hi numeral_2_eq_2)
  show ?thesis unfolding start loop by simp
qed

lemma decode_loop_exhausted:
  "\<not> generated_count s < max_length cfg \<Longrightarrow> decode_loop P M callback cfg s = Some (Exhausted, s)"
  by (simp add: decode_loop.simps [of P M callback cfg s])

lemma decode_loop_step:
  assumes "generated_count s < max_length cfg"
    and "sample_token P (adjust_logits cfg (get_next_token_logits (impl s)) (tokens s))
           (top_p cfg) (gen s) = Some (tok, g')"
    and "eos_token (tokenizer M) \<noteq> Some tok"
    and "callback (cb_state s) tok (decode (tokenizer M) [tok]) = (True, c')"
  shows "decode_loop P M callback cfg s
         = decode_loop P M callback cfg
             (s\<lparr>gen := g', tokens := tokens s @ [tok],
                impl := (impl s)\<lparr>last_logits := random_logits P M (rd_reads s)\<rparr>,
                rd_reads := Suc (rd_reads s), cb_state := c',
                trace := trace s @ [Step tok (length (tokens s)),
                                    Emit tok (decode (tokenizer M) [tok])],
                generated_count := Suc (generated_count s)\<rparr>)"
  using assms
  by (simp add: decode_loop.simps [of P M callback cfg s] decode_step_def
        process_single_token_def Let_def)

lemma penalty_zero_slot:
  "apply_repetition_penalty [0, - 1 :: real] [72, 105] p = [0, - 1]"
  "apply_repetition_penalty [0, - 1 :: real] [72, 105, 0] p = [0, - 1]"
  by (simp_all add: apply_repetition_penalty_def penalize_def penalty_rule_def)

lemma decode_NUL: "decode DummyTokenizer [0] = [CHR 0x00]"
  by (simp add: DummyTokenizer_def char_of_def)

lemma tiny_run_two_tokens:
  "generate_with_callback (test_platform (1 / 10) (\<lambda>i. 1)) tiny_model tiny_engine 0 ''Hi''
       (\<lambda>c t x. (True, c @ x)) [] (default_config\<lparr>max_length := 2, temperature := 1\<rparr>)
   = Returns (Exhausted,
       \<lparr>impl = (tiny_engine_cached 2)\<lparr>last_logits := [0, - 1]\<rparr>,
        rd_reads = 4, tokens = [72, 105, 0, 0], gen = (1, 2), generated_count = 2,
        cb_state = [CHR 0x00, CHR 0x00],
        trace = [Prime [72, 105], Step 0 2, Emit 0 [CHR 0x00], Step 0 3, Emit 0 [CHR 0x00]]\<rparr>)"
proof -
  let ?P = "test_platform (1 / 10) (\<lambda>i. 1)"
  let ?cb = "\<lambda>(c :: string) (t :: TokenId) x. (True, c @ x)"
  let ?cfg = "default_config\<lparr>max_length := 2, temperature := 1\<rparr>"
  let ?I = "(tiny_engine_cached 2)\<lparr>last_logits := [0, - 1]\<rparr>"
  let ?s0 = "\<lparr>impl = ?I, rd_reads = 2, tokens = [72, 105], gen = (1, 0),
        generated_count = 0, cb_state = [], trace = [Prime [72, 105]]\<rparr>
        :: (real, 32 word \<times> nat, string) run"
  let ?s1 = "\<lparr>impl = ?I, rd_reads = 3, tokens = [72, 105, 0], gen = (1, 1),
        generated_count = 1, cb_state = [CHR 0x00],
        trace = [Prime [72, 105], Step 0 2, Emit 0 [CHR 0x00]]\<rparr>
        :: (real, 32 word \<times> nat, string) run"
  let ?s2 = "\<lparr>impl = ?I, rd_reads = 4, tokens = [72, 105, 0, 0], gen = (1, 2),
        generated_count = 2, cb_state = [CHR 0x00, CHR 0x00],
        trace = [Prime [72, 105], Step 0 2, Emit 0 [CHR 0x00], Step 0 3, Emit 0 [CHR 0x00]]\<rparr>
        :: (real, 32 word \<times> nat, string) run"
  have tok: "tokenizer tiny_model = DummyTokenizer" "eos_token DummyTokenizer = Some 2"
    by (simp_all add: tiny_model_def DummyTokenizer_def)
  have logits: "random_logits ?P tiny_model k = [0, - 1]" for k
    using random_logits_tiny [of "1 / 10" "\<lambda>i. 1" DummyTokenizer k]
    by (simp add: scores_by_seed_def tiny_model_def)
  have ready: "prepare_kv_cache ?P tiny_model 0 ?cfg tiny_engine = Inr (tiny_engine_cached 2)"
    using tiny_prepare [of tiny_model ?cfg "1 / 10" "\<lambda>i. 1" 0]
    by (simp add: tiny_model_def default_config_def)
  have start: "generate_with_callback ?P tiny_model tiny_engine 0 ''Hi'' ?cb [] ?cfg
      = (case decode_loop ?P tiny_model ?cb ?cfg ?s0 of None \<Rightarrow> Undefined | Some r \<Rightarrow> Returns r)"
  proof -
    have "generate_with_callback ?P tiny_model tiny_engine 0 ''Hi'' ?cb [] ?cfg
      = (case decode_loop ?P tiny_model ?cb ?cfg
                \<lparr>impl = ?I, rd_reads = Suc (Suc 0), tokens = [72, 105], gen = (1, 0),
                 generated_count = 0, cb_state = [], trace = [Prime [72, 105]]\<rparr> of
           None \<Rightarrow> Undefined | Some r \<Rightarrow> Returns r)"
      by (simp add: generate_with_callback_ready [OF ready] logits test_platform_sel tok
            encode_Hi)
    then show ?thesis by (simp add: numeral_2_eq_2)
  qed
  have more: "generated_count ?s0 < max_length ?cfg" "generated_count ?s1 < max_length ?cfg"
    by (simp_all add: default_config_def)
  have eos: "eos_token (tokenizer tiny_model) \<noteq> Some 0"
    by (simp add: tok)
  have sample0: "sample_token ?P (adjust_logits ?cfg (get_next_token_logits (impl ?s0)) (tokens ?s0))
           (top_p ?cfg) (gen ?s0) = Some (0, (1, 1))"
    by (simp add: adjust_logits_def scale_temperature_def default_config_def
          get_next_token_logits_def penalty_zero_slot sample_test_low)
  have cb0: "?cb (cb_state ?s0) 0 (decode (tokenizer tiny_model) [0]) = (True, [CHR 0x00])"
    by (simp add: tok decode_NUL)
  have step0: "decode_loop ?P tiny_model ?cb ?cfg ?s0 = decode_loop ?P tiny_model ?cb ?cfg ?s1"
  proof -
    have "decode_loop ?P tiny_model ?cb ?cfg ?s0 = decode_loop ?P tiny_model ?cb ?cfg
             (?s0\<lparr>gen := (1, 1), tokens := tokens ?s0 @ [0],
                impl := (impl ?s0)\<lparr>last_logits := random_logits ?P tiny_model (rd_reads ?s0)\<rparr>,
                rd_reads := Suc (rd_reads ?s0), cb_state := [CHR 0x00],
                trace := trace ?s0 @ [Step 0 (length (tokens ?s0)),
                                    Emit 0 (decode (tokenizer tiny_model) [0])],
                generated_count := Suc (generated_count ?s0)\<rparr>)"
      by (rule decode_loop_step; fact)
    also have "(?s0\<lparr>gen := (1, 1), tokens := tokens ?s0 @ [0],
                impl := (impl ?s0)\<lparr>last_logits := random_logits ?P tiny_model (rd_reads ?s0)\<rparr>,
                rd_reads := Suc (rd_reads ?s0), cb_state := [CHR 0x00],
                trace := trace ?s0 @ [Step 0 (length (tokens ?s0)),
                                    Emit 0 (decode (tokenizer tiny_model) [0])],
                generated_count := Suc (generated_count ?s0)\<rparr>) = ?s1"
      by (simp add: logits tok decode_NUL)
    finally show ?thesis .
  qed
  have sample1: "sample_token ?P (adjust_logits ?cfg (get_next_token_logits (impl ?s1)) (tokens ?s1))
           (top_p ?cfg) (gen ?s1) = Some (0, (1, 2))"
  proof -
    have "sample_token ?P (adjust_logits ?cfg (get_next_token_logits (impl ?s1)) (tokens ?s1))
           (top_p ?cfg) (gen ?s1) = Some (0, (1, Suc 1))"
      by (simp add: adjust_logits_def scale_temperature_def default_config_def
          get_next_token_logits_def penalty_zero_slot sample_test_low del: One_nat_def)
    then show ?thesis by simp
  qed
  have cb1: "?cb (cb_state ?s1) 0 (decode (tokenizer tiny_model) [0]) = (True, [CHR 0x00, CHR 0x00])"
    by (simp add: tok decode_NUL)
  have step1: "decode_loop ?P tiny_model ?cb ?cfg ?s1 = decode_loop ?P tiny_model ?cb ?cfg ?s2"
  proof -
    have "decode_loop ?P tiny_model ?cb ?cfg ?s1 = decode_loop ?P tiny_model ?cb ?cfg
             (?s1\<lparr>gen := (1, 2), tokens := tokens ?s1 @ [0],
                impl := (impl ?s1)\<lparr>last_logits := random_logits ?P tiny_model (rd_reads ?s1)\<rparr>,
                rd_reads := Suc (rd_reads ?s1), cb_state := [CHR 0x00, CHR 0x00],
                trace := trace ?s1 @ [Step 0 (length (tokens ?s1)),
                                    Emit 0 (decode (tokenizer tiny_model) [0])],
                generated_count := Suc (generated_count ?s1)\<rparr>)"
      by (rule decode_loop_step; fact)
    also have "(?s1\<lparr>gen := (1, 2), tokens := tokens ?s1 @ [0],
                impl := (impl ?s1)\<lparr>last_logits := random_logits ?P tiny_model (rd_reads ?s1)\<rparr>,
                rd_reads := Suc (rd_reads ?s1), cb_state := [CHR 0x00, CHR 0x00],
                trace := trace ?s1 @ [Step 0 (length (tokens ?s1)),
                                    Emit 0 (decode (tokenizer tiny_model) [0])],
                generated_count := Suc (generated_count ?s1)\<rparr>) = ?s2"
      by (simp add: logits tok decode_NUL)
    finally show ?thesis .
  qed
  have stop: "decode_loop ?P tiny_model ?cb ?cfg ?s2 = Some (Exhausted, ?s2)"
    by (rule decode_loop_exhausted) (simp add: default_config_def)
  show ?thesis
    unfolding start step0 step1 stop by simp
qed


subsection \<open>Cache capacity\<close>














subsection \<open>Invalid configurations\<close>







subsection \<open>Streaming and non-streaming generation\<close>

lemma fragments_append: "fragments (tr @ tr') = fragments tr @ fragments tr'"
  by (simp add: fragments_def)

lemma fragments_simps:
  "fragments [] = []"
  "fragments (Prime toks # tr) = fragments tr"
  "fragments (Step t pos # tr) = fragments tr"
  "fragments (Emit t x # tr) = x # fragments tr"
  by (simp_all add: fragments_def)

lemma decode_step_callbacks:
  fixes s1 :: "('f::{zero,one,plus,minus,times,inverse,ord}, 'g, 's) run"
    and s2 :: "('f, 'g, string) run"
  assumes cont: "\<forall>c t x. fst (cb c t x)"
    and rel: "impl s2 = impl s1 \<and> rd_reads s2 = rd_reads s1 \<and> tokens s2 = tokens s1
              \<and> gen s2 = gen s1 \<and> generated_count s2 = generated_count s1
              \<and> trace s2 = trace s1
              \<and> cb_state s2 = prompt @ concat (fragments (trace s1))"
  shows "case decode_step P M cb cfg s1 of
           None \<Rightarrow> decode_step P M (\<lambda>result token_id text. (True, result @ text)) cfg s2 = None
         | Some (Stop w t) \<Rightarrow>
             (\<exists>t'. decode_step P M (\<lambda>result token_id text. (True, result @ text)) cfg s2
                      = Some (Stop w t')
                  \<and> impl t' = impl t \<and> rd_reads t' = rd_reads t \<and> tokens t' = tokens t
                  \<and> gen t' = gen t \<and> generated_count t' = generated_count t
                  \<and> trace t' = trace t
                  \<and> cb_state t' = prompt @ concat (fragments (trace t)))
         | Some (Next t) \<Rightarrow>
             (\<exists>t'. decode_step P M (\<lambda>result token_id text. (True, result @ text)) cfg s2
                      = Some (Next t')
                  \<and> impl t' = impl t \<and> rd_reads t' = rd_reads t \<and> tokens t' = tokens t
                  \<and> gen t' = gen t \<and> generated_count t' = generated_count t
                  \<and> trace t' = trace t
                  \<and> cb_state t' = prompt @ concat (fragments (trace t)))"
proof (cases "sample_token P (adjust_logits cfg (get_next_token_logits (impl s1)) (tokens s1))
                (top_p cfg) (gen s1)")
  case None
  with rel show ?thesis by (simp add: decode_step_def)
next
  case (Some res)
  obtain tok g' where res: "res = (tok, g')" by (cases res)
  show ?thesis
  proof (cases "eos_token (tokenizer M) = Some tok")
    case True
    with Some res rel show ?thesis by (simp add: decode_step_def)
  next
    case False
    obtain b c' where cb: "cb (cb_state s1) tok (decode (tokenizer M) [tok]) = (b, c')"
      by (cases "cb (cb_state s1) tok (decode (tokenizer M) [tok])")
    with cont have b: "b" by (metis fst_conv)
    from Some res rel False cb b show ?thesis
      by (simp add: decode_step_def process_single_token_def Let_def fragments_append
            fragments_simps)
  qed
qed

text \<open>
  C3. \<open>generate\<close> runs the streaming loop with a callback that appends each
  fragment to a copy of the prompt and never asks to stop. For any streaming callback
  that likewise never asks to stop, whatever its state, on the same platform (the
  same random source), model, engine, prompt and config: either both calls are
  undefined, or both leave by the same exception of the sizing of the cache with
  the engine in the same state, or the string \<open>generate\<close> returns is the prompt
  followed by the fragments that the streaming call emitted to its callback,
  concatenated in the order of emission, and the engine and the random source are
  left in the same state.
\<close>

theorem generate_is_prompt_and_fragments:
  fixes P :: "('f::{zero,one,plus,minus,times,inverse,ord}, 'g) platform"
    and callback :: "'s \<Rightarrow> TokenId \<Rightarrow> string \<Rightarrow> bool \<times> 's"
  assumes "\<forall>c t x. fst (callback c t x)"
  shows "generate P M I k prompt cfg
         = (case generate_with_callback P M I k prompt callback c0 cfg of
              Undefined \<Rightarrow> Undefined
            | Throws e I' \<Rightarrow> Throws e I'
            | Returns (why, s) \<Rightarrow>
                Returns (prompt @ concat (fragments (trace s)), impl s, rd_reads s))"
proof (cases "prepare_kv_cache P M k cfg I")
  case (Inl x)
  obtain e I' where "x = (e, I')" by (cases x)
  with Inl show ?thesis
    by (simp add: generate_def generate_with_callback_throws)
next
  case (Inr I1)
  let ?R = "\<lambda>(s1 :: ('f, 'g, 's) run) (s2 :: ('f, 'g, string) run).
              impl s2 = impl s1 \<and> rd_reads s2 = rd_reads s1 \<and> tokens s2 = tokens s1
              \<and> gen s2 = gen s1 \<and> generated_count s2 = generated_count s1
              \<and> trace s2 = trace s1
              \<and> cb_state s2 = prompt @ concat (fragments (trace s1))"
  let ?append = "\<lambda>(result :: string) (token_id :: TokenId) text. (True, result @ text)"
  let ?I = "I1\<lparr>last_logits := random_logits P M (Suc k)\<rparr>"
  let ?s1 = "\<lparr>impl = ?I, rd_reads = Suc (Suc k), tokens = encode (tokenizer M) prompt,
          gen = mt19937 P (random_device P k), generated_count = 0, cb_state = c0,
          trace = [Prime (encode (tokenizer M) prompt)]\<rparr>"
  let ?s2 = "\<lparr>impl = ?I, rd_reads = Suc (Suc k), tokens = encode (tokenizer M) prompt,
          gen = mt19937 P (random_device P k), generated_count = 0, cb_state = prompt,
          trace = [Prime (encode (tokenizer M) prompt)]\<rparr>"
  have "case decode_loop P M callback cfg ?s1 of
          None \<Rightarrow> decode_loop P M ?append cfg ?s2 = None
        | Some (w, t) \<Rightarrow> (\<exists>t'. decode_loop P M ?append cfg ?s2 = Some (w, t') \<and> ?R t t')"
  proof (rule decode_loop_simulation [where R = ?R and F = ?R])
    show "?R ?s1 ?s2" by (simp add: fragments_simps)
  next
    fix s1 :: "('f, 'g, 's) run" and s2 :: "('f, 'g, string) run"
    assume "?R s1 s2"
    then show "generated_count s2 = generated_count s1" by simp
  next
    fix s1 :: "('f, 'g, 's) run" and s2 :: "('f, 'g, string) run"
    assume "?R s1 s2"
    then show "?R s1 s2" .
  next
    fix s1 :: "('f, 'g, 's) run" and s2 :: "('f, 'g, string) run"
    assume "?R s1 s2"
    then show "case decode_step P M callback cfg s1 of
           None \<Rightarrow> decode_step P M ?append cfg s2 = None
         | Some (Stop w t) \<Rightarrow> (\<exists>t'. decode_step P M ?append cfg s2 = Some (Stop w t') \<and> ?R t t')
         | Some (Next t) \<Rightarrow> (\<exists>t'. decode_step P M ?append cfg s2 = Some (Next t') \<and> ?R t t')"
      by (rule decode_step_callbacks [OF assms])
  qed
  then show ?thesis
    by (auto simp: generate_def generate_with_callback_ready [OF Inr] split: option.splits)
qed

theorem generate_is_prompt_and_fragments_witness:
  "(\<forall>c t x. fst ((\<lambda>(c :: string) (t :: TokenId) x. (True, c @ x)) c t x))
   \<and> generate (test_platform (1 / 10) (\<lambda>i. 1)) tiny_model tiny_engine 0 ''Hi''
         (default_config\<lparr>max_length := 2, temperature := 1\<rparr>)
       = Returns ([CHR ''H'', CHR ''i'', CHR 0x00, CHR 0x00],
                  (tiny_engine_cached 2)\<lparr>last_logits := [0, - 1]\<rparr>, 4)"
proof -
  have cont: "\<forall>c t x. fst ((\<lambda>(c :: string) (t :: TokenId) x. (True, c @ x)) c t x)"
    by simp
  show ?thesis
    using generate_is_prompt_and_fragments [OF cont, of "test_platform (1 / 10) (\<lambda>i. 1)"
            tiny_model tiny_engine 0 "''Hi''" "default_config\<lparr>max_length := 2, temperature := 1\<rparr>" "[]"]
    by (simp add: tiny_run_two_tokens fragments_simps)
qed

subsection \<open>Determinism\<close>

lemma softmax_device: "softmax (P\<lparr>random_device := d\<rparr>) logits = softmax P logits"
  by (simp add: softmax_def cong: option.case_cong)

lemma sample_token_device:
  "sample_token (P\<lparr>random_device := d\<rparr>) logits tp g = sample_token P logits tp g"
  by (simp add: sample_token_def softmax_device sorted_indices_def
           cong: option.case_cong if_cong)

lemma random_logits_device:
  "random_logits (P\<lparr>random_device := d\<rparr>) M i
     = map (normal_draws P (mt19937 P (d i))) [0..<n_vocab (config M)]"
  by (simp add: random_logits_def)

lemma decode_step_device:
  assumes "d2 (rd_reads s) = d1 (rd_reads s)"
  shows "decode_step (P\<lparr>random_device := d2\<rparr>) M cb cfg s
         = decode_step (P\<lparr>random_device := d1\<rparr>) M cb cfg s"
proof (cases "sample_token P (adjust_logits cfg (get_next_token_logits (impl s)) (tokens s))
                (top_p cfg) (gen s)")
  case None
  then show ?thesis by (simp add: decode_step_def sample_token_device)
next
  case (Some res)
  obtain tok g' where res: "res = (tok, g')" by (cases res)
  show ?thesis
    using Some res assms
    by (simp add: decode_step_def sample_token_device process_single_token_def
          random_logits_device)
qed

lemma resize_layer_device:
  "resize_layer (P\<lparr>random_device := d\<rparr>) k n I i = resize_layer P k n I i"
  by (simp add: resize_layer_def Let_def cong: sum.case_cong)

lemma resize_layers_device:
  "resize_layers (P\<lparr>random_device := d\<rparr>) k n layers I = resize_layers P k n layers I"
  by (induction layers arbitrary: I) (simp_all add: resize_layer_device cong: sum.case_cong)

lemma prepare_kv_cache_device:
  "prepare_kv_cache (P\<lparr>random_device := d\<rparr>) M k cfg I = prepare_kv_cache P M k cfg I"
  by (simp add: prepare_kv_cache_def initialize_kv_cache_def resize_layers_device Let_def
        cong: sum.case_cong)

lemma generate_with_callback_device:
  fixes P :: "('f::{zero,one,plus,minus,times,inverse,ord}, 'g) platform"
    and callback :: "'s \<Rightarrow> TokenId \<Rightarrow> string \<Rightarrow> bool \<times> 's"
  assumes agree: "\<forall>i. k \<le> i \<and> i < k + max_length cfg + 2 \<longrightarrow> d2 i = d1 i"
  shows "generate_with_callback (P\<lparr>random_device := d2\<rparr>) M I k prompt callback c0 cfg
         = generate_with_callback (P\<lparr>random_device := d1\<rparr>) M I k prompt callback c0 cfg"
proof (cases "prepare_kv_cache P M k cfg I")
  case (Inl x)
  obtain e I' where "x = (e, I')" by (cases x)
  with Inl have "prepare_kv_cache (P\<lparr>random_device := d\<rparr>) M k cfg I = Inl (e, I')" for d
    by (simp add: prepare_kv_cache_device)
  then show ?thesis
    by (simp add: generate_with_callback_throws)
next
  case (Inr I1)
  then have ready: "prepare_kv_cache (P\<lparr>random_device := d\<rparr>) M k cfg I = Inr I1" for d
    by (simp add: prepare_kv_cache_device)
  let ?R = "\<lambda>(s1 :: ('f, 'g, 's) run) (s2 :: ('f, 'g, 's) run).
              s1 = s2 \<and> rd_reads s1 = k + 2 + generated_count s1"
  let ?I = "I1"
  let ?s = "\<lambda>d. \<lparr>impl = ?I\<lparr>last_logits := random_logits (P\<lparr>random_device := d\<rparr>) M (Suc k)\<rparr>,
          rd_reads = Suc (Suc k), tokens = encode (tokenizer M) prompt,
          gen = mt19937 P (d k), generated_count = 0, cb_state = c0,
          trace = [Prime (encode (tokenizer M) prompt)]\<rparr>"
  from agree have first: "d2 k = d1 k" "d2 (Suc k) = d1 (Suc k)" by simp_all
  then have init: "?s d2 = ?s d1" by (simp add: random_logits_device)
  have "case decode_loop (P\<lparr>random_device := d2\<rparr>) M callback cfg (?s d2) of
          None \<Rightarrow> decode_loop (P\<lparr>random_device := d1\<rparr>) M callback cfg (?s d1) = None
        | Some (w, t) \<Rightarrow>
            (\<exists>t'. decode_loop (P\<lparr>random_device := d1\<rparr>) M callback cfg (?s d1) = Some (w, t')
                 \<and> t = t')"
  proof (rule decode_loop_simulation [where R = ?R and F = "(=)"])
    show "?R (?s d2) (?s d1)" using init by simp
  next
    fix s1 s2 :: "('f, 'g, 's) run"
    assume "?R s1 s2"
    then show "generated_count s2 = generated_count s1" by simp
  next
    fix s1 s2 :: "('f, 'g, 's) run"
    assume "?R s1 s2"
    then show "s1 = s2" by simp
  next
    fix s1 s2 :: "('f, 'g, 's) run"
    assume r: "?R s1 s2" and more: "generated_count s1 < max_length cfg"
    then have "k \<le> rd_reads s1 \<and> rd_reads s1 < k + max_length cfg + 2"
      by auto
    with agree have "d2 (rd_reads s1) = d1 (rd_reads s1)"
      by blast
    then have same: "decode_step (P\<lparr>random_device := d1\<rparr>) M callback cfg s2
         = decode_step (P\<lparr>random_device := d2\<rparr>) M callback cfg s1"
      using r decode_step_device [of d2 s1 d1 P M callback cfg] by simp
    show "case decode_step (P\<lparr>random_device := d2\<rparr>) M callback cfg s1 of
           None \<Rightarrow> decode_step (P\<lparr>random_device := d1\<rparr>) M callback cfg s2 = None
         | Some (Stop w t) \<Rightarrow>
             (\<exists>t'. decode_step (P\<lparr>random_device := d1\<rparr>) M callback cfg s2 = Some (Stop w t')
                  \<and> t = t')
         | Some (Next t) \<Rightarrow>
             (\<exists>t'. decode_step (P\<lparr>random_device := d1\<rparr>) M callback cfg s2 = Some (Next t')
                  \<and> ?R t t')"
    proof (cases "decode_step (P\<lparr>random_device := d2\<rparr>) M callback cfg s1")
      case None
      with same show ?thesis by simp
    next
      case (Some res)
      show ?thesis
      proof (cases res)
        case (Stop w t)
        with Some same show ?thesis by simp
      next
        case (Next t)
        with Some have "rd_reads t = Suc (rd_reads s1)" "generated_count t = Suc (generated_count s1)"
          using decode_step_Next by blast+
        with Some Next same r show ?thesis by auto
      qed
    qed
  qed
  then show ?thesis
    by (auto simp: generate_with_callback_ready [OF ready] split: option.splits)
qed

lemma lo_hi_facts:
  "exp (- 1 :: real) / (exp (- 1) + 1) < 1 / (exp (- 1) + 1)"
  "1 / (exp (- 1 :: real) + 1) \<le> 3 / 4"
  "1 / 2 \<le> 1 / (exp (- 1 :: real) + 1)"
  "1 / (exp (- 1 :: real) + 1) + exp (- 1) / (exp (- 1) + 1) = 1"
  using hi_lo_facts by (simp_all add: add.commute)

lemma sample_lo_hi_low:
  assumes "3 / 4 < tp" "0 \<le> u seed k" "u seed k \<le> 1 / 2"
  shows "sample_token (real_platform u n d) [- 1, 0] tp (seed, k) = Some (1, (seed, Suc k))"
proof -
  have "(1 / (exp (- 1 :: real) + 1) + exp (- 1) / (exp (- 1) + 1)) * u seed k
          \<le> 1 / (exp (- 1) + 1)"
    using assms lo_hi_facts(3) by (simp add: lo_hi_facts(4))
  then show ?thesis
    using assms lo_hi_facts(1,2)
    by (simp add: sample_two_asc [OF softmax_lo_hi])
qed

lemma sample_test_low_swapped:
  assumes "3 / 4 < tp" "0 \<le> u" "u \<le> 1 / 2"
  shows "sample_token (test_platform u dev) [- 1, 0] tp (seed, k) = Some (1, (seed, Suc k))"
  unfolding test_platform_def using assms by (intro sample_lo_hi_low) simp_all

lemma decode_SOH: "decode DummyTokenizer [1] = [CHR 0x01]"
  by (simp add: DummyTokenizer_def char_of_def bit_0 bit_Suc_0_iff)

lemma penalty_out_of_range:
  "apply_repetition_penalty [x, y :: real] [72, 105] p = [x, y]"
  by (simp add: apply_repetition_penalty_def penalize_def)

text \<open>One generated token on the two-token model, from a device that always returns \<open>seed\<close>.\<close>

lemma tiny_run_one_token:
  assumes scores: "[scores_by_seed seed 0, scores_by_seed seed 1] = logits"
    and sample: "sample_token (test_platform (1 / 10) (\<lambda>i. seed)) logits (9 / 10) (seed, 0)
                   = Some (tok, (seed, 1))"
    and tok: "tok \<noteq> 2"
  shows "generate_with_callback (test_platform (1 / 10) (\<lambda>i. seed)) tiny_model tiny_engine 0 ''Hi''
       (\<lambda>c t x. (True, c @ x)) ''Hi'' (default_config\<lparr>max_length := 1, temperature := 1\<rparr>)
   = Returns (Exhausted,
       \<lparr>impl = (tiny_engine_cached 1)\<lparr>last_logits := logits\<rparr>,
        rd_reads = 3, tokens = [72, 105, tok], gen = (seed, 1), generated_count = 1,
        cb_state = ''Hi'' @ decode DummyTokenizer [tok],
        trace = [Prime [72, 105], Step tok 2, Emit tok (decode DummyTokenizer [tok])]\<rparr>)"
proof -
  let ?P = "test_platform (1 / 10) (\<lambda>i. seed)"
  let ?cb = "\<lambda>(c :: string) (t :: TokenId) x. (True, c @ x)"
  let ?cfg = "default_config\<lparr>max_length := 1, temperature := 1\<rparr>"
  let ?I = "(tiny_engine_cached 1)\<lparr>last_logits := logits\<rparr>"
  let ?s0 = "\<lparr>impl = ?I, rd_reads = 2, tokens = [72, 105], gen = (seed, 0),
        generated_count = 0, cb_state = ''Hi'', trace = [Prime [72, 105]]\<rparr>
        :: (real, 32 word \<times> nat, string) run"
  let ?s1 = "\<lparr>impl = ?I, rd_reads = 3, tokens = [72, 105, tok], gen = (seed, 1),
        generated_count = 1, cb_state = ''Hi'' @ decode DummyTokenizer [tok],
        trace = [Prime [72, 105], Step tok 2, Emit tok (decode DummyTokenizer [tok])]\<rparr>
        :: (real, 32 word \<times> nat, string) run"
  have tkz: "tokenizer tiny_model = DummyTokenizer" "eos_token DummyTokenizer = Some 2"
    by (simp_all add: tiny_model_def DummyTokenizer_def)
  have logits: "random_logits ?P tiny_model k = logits" for k
    using random_logits_tiny [of "1 / 10" "\<lambda>i. seed" DummyTokenizer k] scores
    by (simp add: tiny_model_def)
  have ready: "prepare_kv_cache ?P tiny_model 0 ?cfg tiny_engine = Inr (tiny_engine_cached 1)"
    using tiny_prepare [of tiny_model ?cfg "1 / 10" "\<lambda>i. seed" 0]
    by (simp add: tiny_model_def default_config_def)
  have start: "generate_with_callback ?P tiny_model tiny_engine 0 ''Hi'' ?cb ''Hi'' ?cfg
      = (case decode_loop ?P tiny_model ?cb ?cfg ?s0 of None \<Rightarrow> Undefined | Some r \<Rightarrow> Returns r)"
  proof -
    have "generate_with_callback ?P tiny_model tiny_engine 0 ''Hi'' ?cb ''Hi'' ?cfg
      = (case decode_loop ?P tiny_model ?cb ?cfg
                \<lparr>impl = ?I, rd_reads = Suc (Suc 0), tokens = [72, 105], gen = (seed, 0),
                 generated_count = 0, cb_state = ''Hi'', trace = [Prime [72, 105]]\<rparr> of
           None \<Rightarrow> Undefined | Some r \<Rightarrow> Returns r)"
      by (simp only: generate_with_callback_ready [OF ready])
         (simp add: logits test_platform_sel tkz encode_Hi)
    then show ?thesis by (simp add: numeral_2_eq_2)
  qed
  have more: "generated_count ?s0 < max_length ?cfg"
    by (simp add: default_config_def)
  have eos: "eos_token (tokenizer tiny_model) \<noteq> Some tok"
    using tok by (simp add: tkz)
  have two: "length logits = 2"
    using scores by auto
  then obtain x y where xy: "logits = [x, y]"
    by (metis scores)
  have sample0: "sample_token ?P (adjust_logits ?cfg (get_next_token_logits (impl ?s0)) (tokens ?s0))
           (top_p ?cfg) (gen ?s0) = Some (tok, (seed, 1))"
    using sample
    by (simp add: adjust_logits_def scale_temperature_def default_config_def
          get_next_token_logits_def xy penalty_out_of_range)
  have cb0: "?cb (cb_state ?s0) tok (decode (tokenizer tiny_model) [tok])
               = (True, ''Hi'' @ decode DummyTokenizer [tok])"
    by (simp add: tkz)
  have step0: "decode_loop ?P tiny_model ?cb ?cfg ?s0 = decode_loop ?P tiny_model ?cb ?cfg ?s1"
  proof -
    have "decode_loop ?P tiny_model ?cb ?cfg ?s0 = decode_loop ?P tiny_model ?cb ?cfg
             (?s0\<lparr>gen := (seed, 1), tokens := tokens ?s0 @ [tok],
                impl := (impl ?s0)\<lparr>last_logits := random_logits ?P tiny_model (rd_reads ?s0)\<rparr>,
                rd_reads := Suc (rd_reads ?s0), cb_state := ''Hi'' @ decode DummyTokenizer [tok],
                trace := trace ?s0 @ [Step tok (length (tokens ?s0)),
                                    Emit tok (decode (tokenizer tiny_model) [tok])],
                generated_count := Suc (generated_count ?s0)\<rparr>)"
      by (rule decode_loop_step; fact)
    also have "(?s0\<lparr>gen := (seed, 1), tokens := tokens ?s0 @ [tok],
                impl := (impl ?s0)\<lparr>last_logits := random_logits ?P tiny_model (rd_reads ?s0)\<rparr>,
                rd_reads := Suc (rd_reads ?s0), cb_state := ''Hi'' @ decode DummyTokenizer [tok],
                trace := trace ?s0 @ [Step tok (length (tokens ?s0)),
                                    Emit tok (decode (tokenizer tiny_model) [tok])],
                generated_count := Suc (generated_count ?s0)\<rparr>) = ?s1"
      by (simp add: logits tkz)
    finally show ?thesis .
  qed
  have stop: "decode_loop ?P tiny_model ?cb ?cfg ?s1 = Some (Exhausted, ?s1)"
    by (rule decode_loop_exhausted) (simp add: default_config_def)
  show ?thesis
    unfolding start step0 stop by simp
qed

lemma tiny_generate_one_token:
  assumes "[scores_by_seed seed 0, scores_by_seed seed 1] = logits"
    and "sample_token (test_platform (1 / 10) (\<lambda>i. seed)) logits (9 / 10) (seed, 0)
           = Some (tok, (seed, 1))"
    and "tok \<noteq> 2"
  shows "generate (test_platform (1 / 10) (\<lambda>i. seed)) tiny_model tiny_engine 0 ''Hi''
           (default_config\<lparr>max_length := 1, temperature := 1\<rparr>)
         = Returns (''Hi'' @ decode DummyTokenizer [tok],
                    (tiny_engine_cached 1)\<lparr>last_logits := logits\<rparr>, 3)"
  unfolding generate_def tiny_run_one_token [OF assms] by simp

lemma tiny_generate_seed_1:
  "generate (test_platform (1 / 10) (\<lambda>i. 1)) tiny_model tiny_engine 0 ''Hi''
       (default_config\<lparr>max_length := 1, temperature := 1\<rparr>)
     = Returns ([CHR ''H'', CHR ''i'', CHR 0x00],
             (tiny_engine_cached 1)\<lparr>last_logits := [0, - 1]\<rparr>, 3)"
proof -
  have "generate (test_platform (1 / 10) (\<lambda>i. 1)) tiny_model tiny_engine 0 ''Hi''
           (default_config\<lparr>max_length := 1, temperature := 1\<rparr>)
         = Returns (''Hi'' @ decode DummyTokenizer [0],
                 (tiny_engine_cached 1)\<lparr>last_logits := [0, - 1]\<rparr>, 3)"
    by (rule tiny_generate_one_token) (simp_all add: scores_by_seed_def sample_test_low)
  then show ?thesis by (simp add: decode_NUL)
qed

lemma tiny_generate_seed_2:
  "generate (test_platform (1 / 10) (\<lambda>i. 2)) tiny_model tiny_engine 0 ''Hi''
       (default_config\<lparr>max_length := 1, temperature := 1\<rparr>)
     = Returns ([CHR ''H'', CHR ''i'', CHR 0x01],
             (tiny_engine_cached 1)\<lparr>last_logits := [- 1, 0]\<rparr>, 3)"
proof -
  have "generate (test_platform (1 / 10) (\<lambda>i. 2)) tiny_model tiny_engine 0 ''Hi''
           (default_config\<lparr>max_length := 1, temperature := 1\<rparr>)
         = Returns (''Hi'' @ decode DummyTokenizer [1],
                 (tiny_engine_cached 1)\<lparr>last_logits := [- 1, 0]\<rparr>, 3)"
    by (rule tiny_generate_one_token) (simp_all add: scores_by_seed_def sample_test_low_swapped)
  then show ?thesis by (simp add: decode_SOH)
qed

lemma test_platform_device:
  "(test_platform u dev)\<lparr>random_device := d\<rparr> = test_platform u d"
  by (simp add: test_platform_def real_platform_def)

text \<open>
  C1, as the claim words it, fails. Two calls of \<open>generate\<close> with the same prompt
  and config, each on a fresh engine of the same model and with the same library,
  return different token sequences and different text when \<open>std::random_device\<close>
  returns 1 in the one and 2 in the other: the engine seeds its sampling generator
  and fills the scores from the device, and takes no seed from the caller.
\<close>

theorem seed_changes_output_counterexample:
  "generate (test_platform (1 / 10) (\<lambda>i. 1)) tiny_model tiny_engine 0 ''Hi''
       (default_config\<lparr>max_length := 1, temperature := 1\<rparr>)
     = Returns ([CHR ''H'', CHR ''i'', CHR 0x00],
             (tiny_engine_cached 1)\<lparr>last_logits := [0, - 1]\<rparr>, 3)
   \<and> generate (test_platform (1 / 10) (\<lambda>i. 2)) tiny_model tiny_engine 0 ''Hi''
       (default_config\<lparr>max_length := 1, temperature := 1\<rparr>)
     = Returns ([CHR ''H'', CHR ''i'', CHR 0x01],
             (tiny_engine_cached 1)\<lparr>last_logits := [- 1, 0]\<rparr>, 3)"
  using tiny_generate_seed_1 tiny_generate_seed_2 by (rule conjI)

text \<open>
  C1, amended. For a fixed prompt, config, engine state and callback, what a
  generation call does is a function of the values that \<open>std::random_device\<close>
  returns during the call: one to seed the sampling generator, one for the priming
  forward pass and one for each generated token, \<open>max_length + 2\<close> at most. Two
  calls that read the same values there give the same exit, token sequence,
  fragments, text and engine state, whatever the device returns afterwards.
\<close>

theorem generate_determined_by_device_values:
  fixes P :: "('f::{zero,one,plus,minus,times,inverse,ord}, 'g) platform"
    and callback :: "'s \<Rightarrow> TokenId \<Rightarrow> string \<Rightarrow> bool \<times> 's"
  assumes "\<forall>i. k \<le> i \<and> i < k + max_length cfg + 2 \<longrightarrow> d2 i = d1 i"
  shows "generate_with_callback (P\<lparr>random_device := d2\<rparr>) M I k prompt callback c0 cfg
           = generate_with_callback (P\<lparr>random_device := d1\<rparr>) M I k prompt callback c0 cfg
       \<and> generate (P\<lparr>random_device := d2\<rparr>) M I k prompt cfg
           = generate (P\<lparr>random_device := d1\<rparr>) M I k prompt cfg"
  by (simp add: generate_def generate_with_callback_device [OF assms])

theorem generate_determined_by_device_values_witness:
  "generate (test_platform (1 / 10) (\<lambda>i. if i < 3 then 1 else 2)) tiny_model tiny_engine 0 ''Hi''
       (default_config\<lparr>max_length := 1, temperature := 1\<rparr>)
     = Returns ([CHR ''H'', CHR ''i'', CHR 0x00],
             (tiny_engine_cached 1)\<lparr>last_logits := [0, - 1]\<rparr>, 3)"
proof -
  let ?cfg = "default_config\<lparr>max_length := 1, temperature := 1\<rparr>"
  have agree: "\<forall>i. 0 \<le> i \<and> i < 0 + max_length ?cfg + 2
                 \<longrightarrow> (if i < 3 then 1 else 2 :: 32 word) = (\<lambda>i. 1) i"
    by simp
  from generate_determined_by_device_values [OF agree, of "test_platform (1 / 10) (\<lambda>i. 1)"
         tiny_model tiny_engine "''Hi''" "\<lambda>c t x. (True, c)" "()"]
  have "generate (test_platform (1 / 10) (\<lambda>i. if i < 3 then 1 else 2)) tiny_model tiny_engine 0
          ''Hi'' ?cfg
        = generate (test_platform (1 / 10) (\<lambda>i. 1)) tiny_model tiny_engine 0 ''Hi'' ?cfg"
    by (simp only: test_platform_device)
  then show ?thesis by (simp only: tiny_generate_seed_1)
qed

subsection \<open>Nucleus sampling\<close>

lemma cutoff_loop_first:
  "(\<exists>k < length ps. cutoff_loop tp c0 i0 d ps = i0 + k
        \<and> tp \<le> foldl (+) c0 (take (Suc k) ps)
        \<and> (\<forall>k' < k. \<not> tp \<le> foldl (+) c0 (take (Suc k') ps)))
   \<or> (cutoff_loop tp c0 i0 d ps = d
        \<and> (\<forall>k < length ps. \<not> tp \<le> foldl (+) c0 (take (Suc k) ps)))"
proof (induction ps arbitrary: c0 i0)
  case Nil
  then show ?case by simp
next
  case (Cons p ps)
  show ?case
  proof (cases "tp \<le> c0 + p")
    case True
    then have "cutoff_loop tp c0 i0 d (p # ps) = i0 + 0
        \<and> tp \<le> foldl (+) c0 (take (Suc 0) (p # ps))
        \<and> (\<forall>k' < 0. \<not> tp \<le> foldl (+) c0 (take (Suc k') (p # ps)))"
      by simp
    then show ?thesis by blast
  next
    case False
    from Cons.IH [of "c0 + p" "Suc i0"] show ?thesis
    proof (elim disjE exE conjE)
      fix k
      assume k: "k < length ps"
        and at: "cutoff_loop tp (c0 + p) (Suc i0) d ps = Suc i0 + k"
        and reach: "tp \<le> foldl (+) (c0 + p) (take (Suc k) ps)"
        and before: "\<forall>k' < k. \<not> tp \<le> foldl (+) (c0 + p) (take (Suc k') ps)"
      have "\<forall>k' < Suc k. \<not> tp \<le> foldl (+) c0 (take (Suc k') (p # ps))"
      proof (intro allI impI)
        fix k' assume "k' < Suc k"
        then show "\<not> tp \<le> foldl (+) c0 (take (Suc k') (p # ps))"
          using False before by (cases k') simp_all
      qed
      moreover have "cutoff_loop tp c0 i0 d (p # ps) = i0 + Suc k"
        using False at by simp
      moreover have "tp \<le> foldl (+) c0 (take (Suc (Suc k)) (p # ps))"
        using reach by simp
      moreover have "Suc k < length (p # ps)" using k by simp
      ultimately show ?thesis by blast
    next
      assume at: "cutoff_loop tp (c0 + p) (Suc i0) d ps = d"
        and never: "\<forall>k < length ps. \<not> tp \<le> foldl (+) (c0 + p) (take (Suc k) ps)"
      have "\<forall>k < length (p # ps). \<not> tp \<le> foldl (+) c0 (take (Suc k) (p # ps))"
      proof (intro allI impI)
        fix k assume "k < length (p # ps)"
        then show "\<not> tp \<le> foldl (+) c0 (take (Suc k) (p # ps))"
          using False never by (cases k) simp_all
      qed
      moreover have "cutoff_loop tp c0 i0 d (p # ps) = d"
        using False at by simp
      ultimately show ?thesis by blast
    qed
  qed
qed

lemma draw_loop_first:
  "(\<exists>i < length js. draw_loop probs r c0 js = Some (js ! i)
        \<and> r \<le> foldl (+) c0 (map (\<lambda>j. probs ! j) (take (Suc i) js))
        \<and> (\<forall>i' < i. \<not> r \<le> foldl (+) c0 (map (\<lambda>j. probs ! j) (take (Suc i') js))))
   \<or> (draw_loop probs r c0 js = None
        \<and> (\<forall>i < length js. \<not> r \<le> foldl (+) c0 (map (\<lambda>j. probs ! j) (take (Suc i) js))))"
proof (induction js arbitrary: c0)
  case Nil
  then show ?case by simp
next
  case (Cons j js)
  show ?case
  proof (cases "r \<le> c0 + probs ! j")
    case True
    then have "draw_loop probs r c0 (j # js) = Some ((j # js) ! 0)
        \<and> r \<le> foldl (+) c0 (map (\<lambda>j. probs ! j) (take (Suc 0) (j # js)))
        \<and> (\<forall>i' < 0. \<not> r \<le> foldl (+) c0 (map (\<lambda>j. probs ! j) (take (Suc i') (j # js))))"
      by simp
    then show ?thesis by blast
  next
    case False
    from Cons.IH [of "c0 + probs ! j"] show ?thesis
    proof (elim disjE exE conjE)
      fix i
      assume i: "i < length js"
        and at: "draw_loop probs r (c0 + probs ! j) js = Some (js ! i)"
        and reach: "r \<le> foldl (+) (c0 + probs ! j) (map (\<lambda>j. probs ! j) (take (Suc i) js))"
        and before: "\<forall>i' < i. \<not> r \<le> foldl (+) (c0 + probs ! j)
                                      (map (\<lambda>j. probs ! j) (take (Suc i') js))"
      have "\<forall>i' < Suc i. \<not> r \<le> foldl (+) c0 (map (\<lambda>j. probs ! j) (take (Suc i') (j # js)))"
      proof (intro allI impI)
        fix i' assume "i' < Suc i"
        then show "\<not> r \<le> foldl (+) c0 (map (\<lambda>j. probs ! j) (take (Suc i') (j # js)))"
          using False before by (cases i') simp_all
      qed
      moreover have "draw_loop probs r c0 (j # js) = Some ((j # js) ! Suc i)"
        using False at by simp
      moreover have "r \<le> foldl (+) c0 (map (\<lambda>j. probs ! j) (take (Suc (Suc i)) (j # js)))"
        using reach by simp
      moreover have "Suc i < length (j # js)" using i by simp
      ultimately show ?thesis by blast
    next
      assume at: "draw_loop probs r (c0 + probs ! j) js = None"
        and never: "\<forall>i < length js. \<not> r \<le> foldl (+) (c0 + probs ! j)
                                      (map (\<lambda>j. probs ! j) (take (Suc i) js))"
      have "\<forall>i < length (j # js).
              \<not> r \<le> foldl (+) c0 (map (\<lambda>j. probs ! j) (take (Suc i) (j # js)))"
      proof (intro allI impI)
        fix i assume "i < length (j # js)"
        then show "\<not> r \<le> foldl (+) c0 (map (\<lambda>j. probs ! j) (take (Suc i) (j # js)))"
          using False never by (cases i) simp_all
      qed
      moreover have "draw_loop probs r c0 (j # js) = None"
        using False at by simp
      ultimately show ?thesis by blast
    qed
  qed
qed


lemma cumulative_take:
  "i \<le> c \<Longrightarrow> cumulative probs (take (Suc c) indices) i = cumulative probs indices i"
  by (simp add: cumulative_def min_def)

lemma cutoff_idx_first:
  assumes "indices \<noteq> []"
  shows "cutoff_idx probs indices tp < length indices
       \<and> (\<forall>k < cutoff_idx probs indices tp. \<not> tp \<le> cumulative probs indices k)
       \<and> (tp \<le> cumulative probs indices (cutoff_idx probs indices tp)
            \<or> (cutoff_idx probs indices tp = length indices - 1
                \<and> (\<forall>k < length indices. \<not> tp \<le> cumulative probs indices k)))"
  using cutoff_loop_first [of "map (\<lambda>j. probs ! j) indices" tp 0 0 "length indices - 1"] assms
  by (auto simp: cutoff_idx_def cumulative_def take_map)

lemma norm_factor_nucleus:
  "norm_factor probs (nucleus probs indices tp)
     = cumulative probs indices (cutoff_idx probs indices tp)"
  by (simp add: norm_factor_def nucleus_def cumulative_def)

lemma draw_loop_nucleus:
  assumes c: "cutoff_idx probs indices tp < length indices"
  shows "(\<exists>i \<le> cutoff_idx probs indices tp.
            draw_loop probs r 0 (nucleus probs indices tp) = Some (indices ! i)
          \<and> r \<le> cumulative probs indices i
          \<and> (\<forall>i' < i. \<not> r \<le> cumulative probs indices i'))
       \<or> (draw_loop probs r 0 (nucleus probs indices tp) = None
          \<and> (\<forall>i \<le> cutoff_idx probs indices tp. \<not> r \<le> cumulative probs indices i))"
proof -
  let ?c = "cutoff_idx probs indices tp"
  let ?nuc = "take (Suc ?c) indices"
  have len: "length ?nuc = Suc ?c" using c by simp
  have cum: "foldl (+) 0 (map (\<lambda>j. probs ! j) (take (Suc i) ?nuc)) = cumulative probs indices i"
    if "i \<le> ?c" for i
    using cumulative_take [OF that, of probs indices] by (simp only: cumulative_def)
  from draw_loop_first [of ?nuc probs r 0] show ?thesis
  proof (elim disjE exE conjE)
    fix i
    assume i: "i < length ?nuc"
      and at: "draw_loop probs r 0 ?nuc = Some (?nuc ! i)"
      and reach: "r \<le> foldl (+) 0 (map (\<lambda>j. probs ! j) (take (Suc i) ?nuc))"
      and before: "\<forall>i' < i. \<not> r \<le> foldl (+) 0 (map (\<lambda>j. probs ! j) (take (Suc i') ?nuc))"
    from i len have ic: "i \<le> ?c" by simp
    have "draw_loop probs r 0 (nucleus probs indices tp) = Some (indices ! i)"
      using at i by (simp add: nucleus_def)
    moreover have "r \<le> cumulative probs indices i"
      using reach unfolding cum [OF ic] .
    moreover have "\<forall>i' < i. \<not> r \<le> cumulative probs indices i'"
    proof (intro allI impI)
      fix i' assume i': "i' < i"
      with ic have le: "i' \<le> ?c" by simp
      from before i' have "\<not> r \<le> foldl (+) 0 (map (\<lambda>j. probs ! j) (take (Suc i') ?nuc))"
        by blast
      then show "\<not> r \<le> cumulative probs indices i'"
        unfolding cum [OF le] .
    qed
    ultimately show ?thesis using ic by blast
  next
    assume at: "draw_loop probs r 0 ?nuc = None"
      and never: "\<forall>i < length ?nuc. \<not> r \<le> foldl (+) 0 (map (\<lambda>j. probs ! j) (take (Suc i) ?nuc))"
    have "\<forall>i \<le> ?c. \<not> r \<le> cumulative probs indices i"
    proof (intro allI impI)
      fix i assume ic: "i \<le> ?c"
      then have "i < length ?nuc" using len by simp
      with never have "\<not> r \<le> foldl (+) 0 (map (\<lambda>j. probs ! j) (take (Suc i) ?nuc))"
        by blast
      then show "\<not> r \<le> cumulative probs indices i"
        unfolding cum [OF ic] .
    qed
    moreover have "draw_loop probs r 0 (nucleus probs indices tp) = None"
      using at by (simp add: nucleus_def)
    ultimately show ?thesis by blast
  qed
qed



lemma sample_token_draw:
  assumes "softmax P logits = Some probs" and "\<not> tp < lit_1e_6 P"
    and "uniform_real P 0 (norm_factor probs (nucleus probs (sorted_indices P probs) tp)) g = (r, g')"
  shows "sample_token P logits tp g
         = Some (of_nat (case draw_loop probs r 0 (nucleus probs (sorted_indices P probs) tp) of
                           Some j \<Rightarrow> j | None \<Rightarrow> sorted_indices P probs ! 0), g')"
  using assms by (simp add: sample_token_def Let_def split: option.splits)

lemma sample_token_argmax:
  assumes "softmax P logits = Some probs" and "tp < lit_1e_6 P"
  shows "\<exists>m. max_element probs = Some m \<and> sample_token P logits tp g = Some (of_nat m, g)"
proof -
  from assms(1) have "logits \<noteq> []"
    by (auto simp: softmax_def max_element_def)
  with assms(1) have "probs \<noteq> []"
    using softmax_length by fastforce
  then obtain m where "max_element probs = Some m"
    using max_element_Some by blast
  with assms show ?thesis by (simp add: sample_token_def)
qed





lemma test_softmax_hi_lo:
  "softmax (test_platform u dev) [0, - 1]
     = Some [1 / (1 + exp (- 1)), exp (- 1) / (1 + exp (- 1))]"
  unfolding test_platform_def by (rule softmax_hi_lo)

lemma test_softmax_lo_hi:
  "softmax (test_platform u dev) [- 1, 0]
     = Some [exp (- 1) / (exp (- 1) + 1), 1 / (exp (- 1) + 1)]"
  unfolding test_platform_def by (rule softmax_lo_hi)

lemma test_sorted_hi_lo:
  "sorted_indices (test_platform u dev) [1 / (1 + exp (- 1)), exp (- 1) / (1 + exp (- 1))]
     = [0, Suc 0]"
  unfolding test_platform_def using hi_lo_facts(1) by (rule sorted_indices_two_desc)


lemma test_uniform:
  "uniform_real (test_platform u dev) a b (seed, k) = (a + (b - a) * u, (seed, Suc k))"
  by (simp add: test_platform_def real_platform_sel)

lemma test_lit: "lit_1e_6 (test_platform u dev) = 8796093 / 8796093022208"
  by (simp add: test_platform_def real_platform_sel)

lemma max_element_hi_lo:
  "max_element [1 / (1 + exp (- 1 :: real)), exp (- 1) / (1 + exp (- 1))] = Some 0"
  using hi_lo_facts(1) by (simp add: max_element_def)


subsection \<open>When the nucleus is skipped\<close>

text \<open>
  C6, as the claim words it, fails: with \<open>top_p = 1\<close> the sampler draws from the
  distribution. On the scores \<open>0, -1\<close> token 0 has the highest probability, and a
  draw at nine tenths of the range returns token 1.
\<close>

theorem top_p_one_counterexample:
  "softmax (test_platform (9 / 10) (\<lambda>i. 1)) [0, - 1]
       = Some [1 / (1 + exp (- 1)), exp (- 1) / (1 + exp (- 1))]
   \<and> max_element [1 / (1 + exp (- 1 :: real)), exp (- 1) / (1 + exp (- 1))] = Some 0
   \<and> sample_token (test_platform (9 / 10) (\<lambda>i. 1)) [0, - 1] 1 (7, 0) = Some (1, (7, 1))"
  using test_softmax_hi_lo max_element_hi_lo
  by (simp add: sample_test_high)

text \<open>
  C6, amended. For scalars in a linear order and any \<open>std::sort\<close> that rearranges
  its range, the nucleus step is skipped in favour of the arg-max token exactly
  when \<open>top_p < 1e-6\<close>: the token returned is then the first index of the greatest
  probability, and the generator is left untouched. For every other \<open>top_p\<close>,
  \<open>top_p = 1\<close> included, the token is drawn: a point is drawn from the generator,
  which advances, uniformly between 0 and the probability mass of the nucleus, and
  the token returned is the one at the first position of the nucleus whose
  cumulative probability reaches the point (the first sorted index if none does).
\<close>

theorem nucleus_skipped_only_for_tiny_top_p:
  fixes P :: "('f::{zero,plus,minus,inverse,linorder}, 'g) platform" and tp :: 'f
  assumes perm: "sort_permutes P" and sm: "softmax P logits = Some probs"
  defines "indices \<equiv> sorted_indices P probs"
  defines "c \<equiv> cutoff_idx probs indices tp"
  shows "(tp < lit_1e_6 P \<longrightarrow>
            (\<exists>m < length probs.
                sample_token P logits tp g = Some (of_nat m, g)
              \<and> (\<forall>i < length probs. probs ! i \<le> probs ! m)
              \<and> (\<forall>i < m. probs ! i < probs ! m)))
       \<and> (\<not> tp < lit_1e_6 P \<longrightarrow>
            (\<exists>j r g'.
                uniform_real P 0 (cumulative probs indices c) g = (r, g')
              \<and> sample_token P logits tp g = Some (of_nat j, g')
              \<and> c < length indices
              \<and> ((\<exists>i \<le> c. j = indices ! i \<and> r \<le> cumulative probs indices i
                           \<and> (\<forall>i' < i. \<not> r \<le> cumulative probs indices i'))
                  \<or> ((\<forall>i \<le> c. \<not> r \<le> cumulative probs indices i) \<and> j = indices ! 0))))"
proof (intro conjI impI)
  assume small: "tp < lit_1e_6 P"
  from sample_token_argmax [OF sm small, of g] obtain m where
    m: "max_element probs = Some m" and res: "sample_token P logits tp g = Some (of_nat m, g)"
    by blast
  from max_element_greatest [OF m] res
  show "\<exists>m < length probs.
                sample_token P logits tp g = Some (of_nat m, g)
              \<and> (\<forall>i < length probs. probs ! i \<le> probs ! m)
              \<and> (\<forall>i < m. probs ! i < probs ! m)"
    by blast
next
  assume big: "\<not> tp < lit_1e_6 P"
  have len: "length indices = length probs"
    unfolding indices_def using perm by (rule sorted_indices_length)
  from sm have "logits \<noteq> []"
    by (auto simp: softmax_def max_element_def)
  with sm have "probs \<noteq> []"
    using softmax_length by fastforce
  with len have ne: "indices \<noteq> []" by auto
  from cutoff_idx_first [OF ne, of probs tp] have c: "cutoff_idx probs indices tp < length indices"
    by blast
  have nf: "norm_factor probs (nucleus probs indices tp) = cumulative probs indices c"
    unfolding c_def by (rule norm_factor_nucleus)
  obtain r g' where draw: "uniform_real P 0 (cumulative probs indices c) g = (r, g')"
    by (cases "uniform_real P 0 (cumulative probs indices c) g")
  have res: "sample_token P logits tp g
         = Some (of_nat (case draw_loop probs r 0 (nucleus probs indices tp) of
                           Some j \<Rightarrow> j | None \<Rightarrow> indices ! 0), g')"
    unfolding indices_def
    using sm big draw [folded nf, unfolded indices_def] by (rule sample_token_draw)
  have "\<exists>j. sample_token P logits tp g = Some (of_nat j, g')
              \<and> ((\<exists>i \<le> c. j = indices ! i \<and> r \<le> cumulative probs indices i
                           \<and> (\<forall>i' < i. \<not> r \<le> cumulative probs indices i'))
                  \<or> ((\<forall>i \<le> c. \<not> r \<le> cumulative probs indices i) \<and> j = indices ! 0))"
    using draw_loop_nucleus [OF c, of r, folded c_def] res by auto
  with draw c show "\<exists>j r g'.
                uniform_real P 0 (cumulative probs indices c) g = (r, g')
              \<and> sample_token P logits tp g = Some (of_nat j, g')
              \<and> c < length indices
              \<and> ((\<exists>i \<le> c. j = indices ! i \<and> r \<le> cumulative probs indices i
                           \<and> (\<forall>i' < i. \<not> r \<le> cumulative probs indices i'))
                  \<or> ((\<forall>i \<le> c. \<not> r \<le> cumulative probs indices i) \<and> j = indices ! 0))"
    unfolding c_def by blast
qed

theorem nucleus_skipped_only_for_tiny_top_p_witness:
  "sort_permutes (test_platform (9 / 10) (\<lambda>i. 1))
   \<and> softmax (test_platform (9 / 10) (\<lambda>i. 1)) [- 1, 0]
       = Some [exp (- 1) / (exp (- 1) + 1), 1 / (exp (- 1) + 1)]
   \<and> softmax (test_platform (9 / 10) (\<lambda>i. 1)) [0, - 1]
       = Some [1 / (1 + exp (- 1)), exp (- 1) / (1 + exp (- 1))]
   \<and> sample_token (test_platform (9 / 10) (\<lambda>i. 1)) [- 1, 0] 0 (7, 0) = Some (1, (7, 0))
   \<and> sample_token (test_platform (9 / 10) (\<lambda>i. 1)) [0, - 1] 1 (7, 0) = Some (1, (7, 1))"
proof -
  let ?P = "test_platform (9 / 10) (\<lambda>i. 1)"
  let ?up = "[exp (- 1 :: real) / (exp (- 1) + 1), 1 / (exp (- 1) + 1)]"
  let ?down = "[1 / (1 + exp (- 1 :: real)), exp (- 1) / (1 + exp (- 1))]"
  have perm: "sort_permutes ?P" by (rule test_platform_sort_permutes)
  have up: "softmax ?P [- 1, 0] = Some ?up" by (rule test_softmax_lo_hi)
  have down: "softmax ?P [0, - 1] = Some ?down" by (rule test_softmax_hi_lo)
  have small: "(0 :: real) < lit_1e_6 ?P" by (simp add: test_lit)
  have big: "\<not> (1 :: real) < lit_1e_6 ?P" by (simp add: test_lit)
  note inst0 = nucleus_skipped_only_for_tiny_top_p [OF perm up, where tp = 0 and g = "(7, 0)"]
  note inst1 = nucleus_skipped_only_for_tiny_top_p [OF perm down, where tp = 1 and g = "(7, 0)"]
  from inst0 small obtain m where
    m: "m < length ?up" and res0: "sample_token ?P [- 1, 0] 0 (7, 0) = Some (of_nat m, (7, 0))"
    and greatest: "\<forall>i < length ?up. ?up ! i \<le> ?up ! m"
    by blast
  have "m = 1"
  proof (rule ccontr)
    assume "m \<noteq> 1"
    with m have "m = 0" by simp
    with greatest have "\<forall>i < 2. ?up ! i \<le> ?up ! 0" by simp
    then have "?up ! 1 \<le> ?up ! 0" by (rule allE [of _ 1]) simp
    with lo_hi_facts(1) show False by simp
  qed
  with res0 have first: "sample_token ?P [- 1, 0] 0 (7, 0) = Some (1, (7, 0))"
    by simp
  have ix: "sorted_indices ?P ?down = [0, Suc 0]" by (rule test_sorted_hi_lo)
  have cum: "cumulative ?down [0, Suc 0] 0 = 1 / (1 + exp (- 1))"
    "cumulative ?down [0, Suc 0] (Suc 0) = 1"
    using hi_lo_facts(4) by (simp_all add: cumulative_def)
  have c: "cutoff_idx ?down [0, Suc 0] 1 = Suc 0"
    using hi_lo_facts(2,4) by (simp add: cutoff_idx_def)
  from inst1 big obtain j r g' where
    draw: "uniform_real ?P 0 (cumulative ?down [0, Suc 0] (Suc 0)) (7, 0) = (r, g')"
    and res1: "sample_token ?P [0, - 1] 1 (7, 0) = Some (of_nat j, g')"
    and pick: "(\<exists>i \<le> Suc 0. j = [0, Suc 0] ! i \<and> r \<le> cumulative ?down [0, Suc 0] i
                           \<and> (\<forall>i' < i. \<not> r \<le> cumulative ?down [0, Suc 0] i'))
                  \<or> ((\<forall>i \<le> Suc 0. \<not> r \<le> cumulative ?down [0, Suc 0] i) \<and> j = [0, Suc 0] ! 0)"
    unfolding ix c by blast
  from draw have r: "r = 9 / 10" and g': "g' = (7, 1)"
    by (simp_all add: test_uniform cum)
  have far: "\<not> r \<le> cumulative ?down [0, Suc 0] 0"
    using hi_lo_facts(2) by (simp add: r cum)
  have near: "r \<le> cumulative ?down [0, Suc 0] (Suc 0)"
    by (simp add: r cum)
  from pick have "j = 1"
  proof (elim disjE exE conjE)
    fix i assume "i \<le> Suc 0" and ji: "j = [0, Suc 0] ! i" and "r \<le> cumulative ?down [0, Suc 0] i"
    with far have "i = Suc 0" by (cases i) auto
    with ji show ?thesis by simp
  next
    assume "\<forall>i \<le> Suc 0. \<not> r \<le> cumulative ?down [0, Suc 0] i"
    with near show ?thesis by blast
  qed
  with res1 g' have second: "sample_token ?P [0, - 1] 1 (7, 0) = Some (1, (7, 1))"
    by simp
  show ?thesis
    by (intro conjI perm up down first second)
qed

subsection \<open>Temperature zero\<close>

text \<open>
  C2 fails on the code, which engine.h documents otherwise (\<open>temperature\<close>:
  "0.0 = greedy"). With the default config and \<open>temperature = 0\<close>, the scores
  \<open>0, -1\<close> and an empty history, the arg-max of the raw scores is token 0; the
  code only leaves out the division by the temperature and then samples as always:
  a draw at nine tenths of the range returns token 1, a draw at one tenth token 0,
  so that the token depends on the random source.
\<close>

theorem temperature_zero_not_greedy:
  "max_element [0, - 1 :: real] = Some 0
   \<and> adjust_logits (default_config\<lparr>temperature := 0\<rparr>) [0, - 1] [] = [0, - 1]
   \<and> sample_token (test_platform (9 / 10) (\<lambda>i. 1))
        (adjust_logits (default_config\<lparr>temperature := 0\<rparr>) [0, - 1] [])
        (top_p (default_config\<lparr>temperature := 0\<rparr>)) (7, 0) = Some (1, (7, 1))
   \<and> sample_token (test_platform (1 / 10) (\<lambda>i. 1))
        (adjust_logits (default_config\<lparr>temperature := 0\<rparr>) [0, - 1] [])
        (top_p (default_config\<lparr>temperature := 0\<rparr>)) (7, 0) = Some (0, (7, 1))"
proof -
  have adj: "adjust_logits (default_config\<lparr>temperature := 0\<rparr>) [0, - 1] [] = [0, - 1 :: real]"
    by (simp add: adjust_logits_def scale_temperature_def default_config_def
          apply_repetition_penalty_def)
  have tp: "top_p (default_config\<lparr>temperature := 0\<rparr>) = 9 / 10"
    by (simp add: default_config_def)
  show ?thesis
    unfolding adj tp by (simp add: max_element_def sample_test_high sample_test_low)
qed

end
